theory Spec2Isabelle
  imports Complex_Main "HOL-Library.AList"
begin

section \<open>Python values\<close>

text \<open>
  The component is Python. Its integers are unbounded and are modelled by \<^typ>\<open>int\<close>.
  A Python string is modelled by \<^typ>\<open>string\<close>, each \<^typ>\<open>char\<close> standing for the
  code point of the same number, so the model covers the strings over code points
  below 256. An exception is a value of \<open>py_error\<close> on the left of a sum.

  Python floats are not modelled numerically. The float expressions of the source are
  fields of a record \<open>float_ops\<close> that every function using them takes as its first
  argument, and the theorems hold for every choice of these operations.
\<close>

datatype py_error =
    ValueError | AttributeError | TypeError | OverflowError
  | ClientError | Other_exception

record 'f float_ops =
  cents_to_dollars :: "'f \<Rightarrow> 'f"
    \<comment> \<open>\<^verbatim>\<open>round(x / 100.0, 6)\<close>\<close>
  zero_price :: "'f"
    \<comment> \<open>the literal \<^verbatim>\<open>0.0\<close>\<close>
  is_nonzero :: "'f \<Rightarrow> bool"
    \<comment> \<open>truth value of a number\<close>
  exceeds_tolerance :: "'f \<Rightarrow> 'f \<Rightarrow> py_error + bool"
    \<comment> \<open>\<^verbatim>\<open>abs(stored_value - sent_value) > 0.001\<close>; the subtraction of a float from
        an integer too large for a float raises\<close>

subsection \<open>\<^verbatim>\<open>str.strip\<close>, \<^verbatim>\<open>str.split\<close>, \<^verbatim>\<open>int\<close>\<close>

definition str_isspace :: "char \<Rightarrow> bool" where
  "str_isspace c = ((of_char c :: nat) \<in> set [9, 10, 11, 12, 13, 28, 29, 30, 31, 32, 133, 160])"

definition strip :: "string \<Rightarrow> string" where
  "strip s = rev (dropWhile str_isspace (rev (dropWhile str_isspace s)))"

text \<open>\<^verbatim>\<open>s.split(sep)\<close> for a one-character separator: one field more than separators.\<close>

fun split :: "char \<Rightarrow> string \<Rightarrow> string list" where
  "split sep [] = [[]]"
| "split sep (c # cs) =
     (if c = sep then [] # split sep cs
      else (case split sep cs of
              [] \<Rightarrow> [[c]]
            | p # ps \<Rightarrow> (c # p) # ps))"

text \<open>
  \<^verbatim>\<open>int(s)\<close> in base 10: white space around the literal is skipped (the set of \<^verbatim>\<open>int\<close> is
  smaller than the one of \<^verbatim>\<open>strip\<close>: the separators 28 to 31 are not in it), then an
  optional sign, then decimal digits with single underscores allowed between two digits.
  A literal of more than 4300 digits is refused (the interpreter's default limit).
\<close>

definition int_isspace :: "char \<Rightarrow> bool" where
  "int_isspace c = ((of_char c :: nat) \<in> set [9, 10, 11, 12, 13, 32, 133, 160])"

definition is_digit :: "char \<Rightarrow> bool" where
  "is_digit c = (48 \<le> (of_char c :: nat) \<and> (of_char c :: nat) \<le> 57)"

definition digit_val :: "char \<Rightarrow> int" where
  "digit_val c = int (of_char c) - 48"

definition INT_MAX_STR_DIGITS :: nat where
  "INT_MAX_STR_DIGITS = 4300"

fun scan_digits :: "string \<Rightarrow> int \<Rightarrow> nat \<Rightarrow> (int \<times> nat) option" where
  "scan_digits [] acc n = Some (acc, n)"
| "scan_digits (c # cs) acc n =
     (if is_digit c then scan_digits cs (10 * acc + digit_val c) (Suc n)
      else if c = CHR ''_'' then
        (case cs of
           [] \<Rightarrow> None
         | d # ds \<Rightarrow> if is_digit d then scan_digits cs acc n else None)
      else None)"

definition split_sign :: "string \<Rightarrow> bool \<times> string" where
  "split_sign t =
     (case t of
        [] \<Rightarrow> (False, t)
      | c # r \<Rightarrow> if c = CHR ''+'' then (False, r)
                else if c = CHR ''-'' then (True, r)
                else (False, t))"

definition py_int :: "string \<Rightarrow> int option" where
  "py_int s =
     (let t = rev (dropWhile int_isspace (rev (dropWhile int_isspace s)));
          (neg, body) = split_sign t
      in case body of
           [] \<Rightarrow> None
         | c # cs \<Rightarrow>
             if is_digit c then
               (case scan_digits body 0 0 of
                  None \<Rightarrow> None
                | Some (v, n) \<Rightarrow>
                    if INT_MAX_STR_DIGITS < n then None
                    else Some (if neg then - v else v))
             else None)"

text \<open>The format \<^verbatim>\<open>{n:02d}\<close> for a natural number: decimal, padded with zeros to two places.\<close>

fun decimal :: "nat \<Rightarrow> string" where
  "decimal n =
     (if n < 10 then [char_of (48 + n)]
      else decimal (n div 10) @ [char_of (48 + n mod 10)])"

definition fmt_02d :: "nat \<Rightarrow> string" where
  "fmt_02d n = (let d = decimal n in replicate (2 - length d) CHR ''0'' @ d)"

section \<open>Helpers of the component\<close>

subsection \<open>\<^verbatim>\<open>_parse_time_to_minutes\<close>\<close>

text \<open>
  The range test of the source has an empty body (\<^verbatim>\<open>pass\<close>): both branches go on to the
  same \<^verbatim>\<open>return\<close>.
\<close>

definition parse_time_to_minutes :: "string \<Rightarrow> py_error + int" where
  "parse_time_to_minutes time_str =
     (let parts = split CHR '':'' (strip time_str) in
      if length parts \<noteq> 2 then Inl ValueError
      else
        (case py_int (parts ! 0) of
           None \<Rightarrow> Inl ValueError
         | Some hours \<Rightarrow>
             (case py_int (parts ! 1) of
                None \<Rightarrow> Inl ValueError
              | Some mins \<Rightarrow>
                  if \<not> (0 \<le> hours \<and> hours \<le> 23 \<and> (mins = 0 \<or> mins = 30))
                  then Inr (hours * 60 + mins)
                  else Inr (hours * 60 + mins))))"

subsection \<open>\<^verbatim>\<open>_build_tariff\<close>\<close>

record 'f rate =
  start :: string
  end' :: string
  buy :: "'f"
  sell :: "'f"

record tou_period =
  period_name :: string
  fromDayOfWeek :: nat
  toDayOfWeek :: nat
  fromHour :: nat
  fromMinute :: nat
  toHour :: nat
  toMinute :: nat

text \<open>
  The document. \<open>buy_rates\<close> is \<^verbatim>\<open>energy_charges.Summer.rates\<close>, \<open>sell_rates\<close> is
  \<^verbatim>\<open>sell_tariff.energy_charges.Summer.rates\<close>, \<open>tou_periods\<close> is
  \<^verbatim>\<open>seasons.Summer.tou_periods\<close> (the same object on the buy and the sell side). A Python
  dictionary keeps its keys in insertion order, so each table is an association list
  written with \<^const>\<open>AList.update\<close>. The constant sub-dictionaries (daily and demand
  charges, the \<^verbatim>\<open>ALL\<close> and \<^verbatim>\<open>Winter\<close> entries) carry no input and are left out.
\<close>

record 'f tariff =
  version :: nat
  code :: string
  tariff_name :: string
  utility :: string
  currency :: string
  buy_rates :: "(string \<times> 'f) list"
  tou_periods :: "(string \<times> tou_period) list"
  sell_name :: string
  sell_rates :: "(string \<times> 'f) list"

datatype level = DEBUG | INFO | WARNING | ERROR

text \<open>
  A log record is its level and what it reports; the rendered text is not modelled.
\<close>

datatype message =
    No_rate_covers string
  | Payload_summary nat
  | Pushed_successfully nat
  | Teslemetry_response
  | Failed_to_push int
  | Network_error
  | Unexpected_error
  | Permanent_failure int
  | Rate_limited nat nat
  | Retrying int nat nat
  | Retries_exhausted
  | Readback_http int
  | Readback_error
  | Readback_no_rates
  | Readback_mismatches "string list"
  | Readback_passed nat
  | Building nat
  | Build_failed py_error
  | Verification_failed
  | Push_complete nat
  | Push_failed nat

definition DEFAULT_PLAN_NAME :: string where
  "DEFAULT_PLAN_NAME = ''Custom TOU (TOU Writer)''"

text \<open>Lines 103 to 106: the marks \<open>m\<close>, \<open>m + 30\<close>, ... below \<open>end_min\<close> are written.\<close>

function stamp :: "int \<Rightarrow> int \<Rightarrow> 'v \<Rightarrow> (int \<rightharpoonup> 'v) \<Rightarrow> (int \<rightharpoonup> 'v)" where
  "stamp m end_min v minute_prices =
     (if m < end_min then stamp (m + 30) end_min v (minute_prices(m \<mapsto> v))
      else minute_prices)"
  by pat_completeness auto
termination
  by (relation "measure (\<lambda>(m, end_min, v, minute_prices). nat (end_min - m))") auto

declare stamp.simps [simp del]

text \<open>Lines 92 to 106: the loop over the rates; the first time that does not parse raises.\<close>

fun expand_rates ::
  "'f float_ops \<Rightarrow> 'f rate list \<Rightarrow> (int \<rightharpoonup> 'f \<times> 'f) \<Rightarrow> py_error + (int \<rightharpoonup> 'f \<times> 'f)" where
  "expand_rates ops [] minute_prices = Inr minute_prices"
| "expand_rates ops (rate # rates) minute_prices =
     (case parse_time_to_minutes (start rate) of
        Inl e \<Rightarrow> Inl e
      | Inr start_min \<Rightarrow>
          (case parse_time_to_minutes (end' rate) of
             Inl e \<Rightarrow> Inl e
           | Inr end_min0 \<Rightarrow>
               (let end_min = (if end_min0 = 0 then 1440 else end_min0);
                    buy_dollars = cents_to_dollars ops (buy rate);
                    sell_dollars = cents_to_dollars ops (sell rate)
                in expand_rates ops rates
                     (stamp start_min end_min (buy_dollars, sell_dollars) minute_prices))))"

text \<open>Lines 113 to 127: one pass of the loop over \<^verbatim>\<open>range(48)\<close>.\<close>

definition period_key :: "nat \<Rightarrow> string" where
  "period_key slot =
     (let minutes = slot * 30; h = minutes div 60; m = minutes mod 60
      in ''PERIOD_'' @ fmt_02d h @ ''_'' @ fmt_02d m)"

record 'f slots =
  buy_prices :: "(string \<times> 'f) list"
  sell_prices :: "(string \<times> 'f) list"
  period_keys :: "string list"
  warnings :: "(level \<times> message) list"

definition slot_step ::
  "'f float_ops \<Rightarrow> (int \<rightharpoonup> 'f \<times> 'f) \<Rightarrow> nat \<Rightarrow> 'f slots \<Rightarrow> 'f slots" where
  "slot_step ops minute_prices slot st =
     (let minutes = slot * 30;
          key = period_key slot;
          (buy_dollars, sell_dollars, logged) =
            (case minute_prices (int minutes) of
               Some (b, s) \<Rightarrow> (b, s, [])
             | None \<Rightarrow> (zero_price ops, zero_price ops, [(WARNING, No_rate_covers key)]))
      in \<lparr> buy_prices = AList.update key buy_dollars (buy_prices st),
           sell_prices = AList.update key sell_dollars (sell_prices st),
           period_keys = period_keys st @ [key],
           warnings = warnings st @ logged \<rparr>)"

definition build_slots :: "'f float_ops \<Rightarrow> (int \<rightharpoonup> 'f \<times> 'f) \<Rightarrow> 'f slots" where
  "build_slots ops minute_prices =
     fold (slot_step ops minute_prices) [0..<48]
       \<lparr> buy_prices = [], sell_prices = [], period_keys = [], warnings = [] \<rparr>"

text \<open>Lines 130 to 147: the period definitions, one per key, by \<^verbatim>\<open>enumerate\<close>.\<close>

definition tou_period_of :: "nat \<Rightarrow> string \<Rightarrow> tou_period" where
  "tou_period_of i key =
     (let slot_min = i * 30;
          h = slot_min div 60;
          m = slot_min mod 60;
          end_slot = slot_min + 30;
          end_h = end_slot div 60;
          end_m = end_slot mod 60
      in \<lparr> period_name = key, fromDayOfWeek = 0, toDayOfWeek = 6,
           fromHour = h, fromMinute = m,
           toHour = (if end_h < 24 then end_h else 0), toMinute = end_m \<rparr>)"

definition build_tou_periods :: "string list \<Rightarrow> (string \<times> tou_period) list" where
  "build_tou_periods keys =
     fold (\<lambda>(i, key) acc. AList.update key (tou_period_of i key) acc)
       (zip [0..<length keys] keys) []"

definition build_tariff ::
  "'f float_ops \<Rightarrow> 'f rate list \<Rightarrow> string option
     \<Rightarrow> py_error + ('f tariff \<times> (level \<times> message) list)" where
  "build_tariff ops rates plan_name =
     (case expand_rates ops rates Map.empty of
        Inl e \<Rightarrow> Inl e
      | Inr minute_prices \<Rightarrow>
          (let st = build_slots ops minute_prices;
               name = (case plan_name of
                         None \<Rightarrow> DEFAULT_PLAN_NAME
                       | Some s \<Rightarrow> if s = [] then DEFAULT_PLAN_NAME else s)
           in Inr (\<lparr> version = 1,
                     code = ''TOU_WRITER:CUSTOM'',
                     tariff_name = name,
                     utility = ''Custom'',
                     currency = ''AUD'',
                     buy_rates = buy_prices st,
                     tou_periods = build_tou_periods (period_keys st),
                     sell_name = name @ '' (Sell)'',
                     sell_rates = sell_prices st \<rparr>,
                   warnings st)))"

section \<open>The network\<close>

text \<open>
  A value read from a JSON body is a Python object: \<open>PyNum\<close> is any number (\<^verbatim>\<open>int\<close>,
  \<^verbatim>\<open>float\<close>, and \<^verbatim>\<open>bool\<close>, which is a subclass of \<^verbatim>\<open>int\<close>), \<open>PyDict\<close> is a dictionary,
  read with \<^const>\<open>map_of\<close>.
\<close>

datatype 'f pyval =
    PyNone
  | PyNum 'f
  | PyStr string
  | PyList "'f pyval list"
  | PyDict "(string \<times> 'f pyval) list"

text \<open>
  One HTTP exchange of the client session, as the code sees it: opening it raises, or it
  gives a response with a status, whose body is then read by \<^verbatim>\<open>await response.json()\<close>
  or \<^verbatim>\<open>await response.text()\<close>, each of which raises or returns. The exchange is an
  input of the model: the address and the headers built from the site and the token
  do not appear.
\<close>

record 'f response =
  status :: int
  json :: "py_error + 'f pyval"
  text_body :: "py_error + string"

datatype 'f exchange = Raised py_error | Responded "'f response"

datatype error_text = Build_error py_error | Failed_after nat

record event_data =
  success :: bool
  site_id_masked :: string
  plan_name_shown :: string
  attempt_count :: nat
  error :: "error_text option"

datatype effect =
    Log level message
  | Post nat
  | Get
  | Sleep nat
  | Fire_event event_data
  | Notification_create nat
  | Notification_dismiss

subsection \<open>\<^verbatim>\<open>_send_to_teslemetry\<close>\<close>

definition send_to_teslemetry :: "'f exchange \<Rightarrow> 'f tariff \<Rightarrow> (bool \<times> int) \<times> effect list" where
  "send_to_teslemetry exchange tariff =
     (let buy = buy_rates tariff;
          summary = (if buy \<noteq> [] then [Log DEBUG (Payload_summary (length buy))] else [])
      in case exchange of
           Raised err \<Rightarrow>
             if err = ClientError then ((False, 0), summary @ [Log ERROR Network_error])
             else ((False, 0), summary @ [Log ERROR Unexpected_error])
         | Responded response \<Rightarrow>
             if status response = 200 then
               (case json response of
                  Inl err \<Rightarrow>
                    if err = ClientError then ((False, 0), summary @ [Log ERROR Network_error])
                    else ((False, 0), summary @ [Log ERROR Unexpected_error])
                | Inr result \<Rightarrow>
                    ((True, 200),
                     summary @ [Log INFO (Pushed_successfully (length buy)),
                                Log DEBUG Teslemetry_response]))
             else
               (case text_body response of
                  Inl err \<Rightarrow>
                    if err = ClientError then ((False, 0), summary @ [Log ERROR Network_error])
                    else ((False, 0), summary @ [Log ERROR Unexpected_error])
                | Inr error_text \<Rightarrow>
                    ((False, status response),
                     summary @ [Log ERROR (Failed_to_push (status response))])))"

subsection \<open>\<^verbatim>\<open>_send_with_retry\<close>\<close>

definition MAX_RETRIES :: nat where
  "MAX_RETRIES = 3"

definition RETRY_DELAYS :: "nat list" where
  "RETRY_DELAYS = [2, 4, 8]"

definition RETRIABLE_STATUS_CODES :: "int set" where
  "RETRIABLE_STATUS_CODES = {429, 500, 502, 503, 504}"

definition PERMANENT_FAILURE_CODES :: "int set" where
  "PERMANENT_FAILURE_CODES = {400, 401, 403}"

text \<open>
  The loop over \<^verbatim>\<open>range(1, MAX_RETRIES + 1)\<close>, as a recursion over the attempt numbers
  left. \<open>post attempt\<close> is the exchange that the attempt meets. The \<^verbatim>\<open>break\<close> of the last
  attempt and the end of the range both reach the lines after the loop.
\<close>

fun retry_loop ::
  "(nat \<Rightarrow> 'f exchange) \<Rightarrow> 'f tariff \<Rightarrow> nat list \<Rightarrow> (bool \<times> nat) \<times> effect list" where
  "retry_loop post tariff [] =
     ((False, MAX_RETRIES), [Log ERROR Retries_exhausted])"
| "retry_loop post tariff (attempt # rest) =
     (let ((succeeded, code_seen), sent) = send_to_teslemetry (post attempt) tariff;
          fx = Post attempt # sent
      in if succeeded then ((True, attempt), fx)
         else if code_seen \<in> PERMANENT_FAILURE_CODES then
           ((False, attempt), fx @ [Log ERROR (Permanent_failure code_seen)])
         else if attempt = MAX_RETRIES then
           ((False, MAX_RETRIES), fx @ [Log ERROR Retries_exhausted])
         else if code_seen = 429 then
           (let delay = RETRY_DELAYS ! (attempt - 1);
                (res, later) = retry_loop post tariff rest
            in (res, fx @ [Log WARNING (Rate_limited delay attempt), Sleep delay] @ later))
         else if code_seen \<in> RETRIABLE_STATUS_CODES \<or> code_seen = 0 then
           (let delay = RETRY_DELAYS ! (attempt - 1);
                (res, later) = retry_loop post tariff rest
            in (res, fx @ [Log WARNING (Retrying code_seen delay attempt), Sleep delay] @ later))
         else ((False, attempt), fx))"

definition send_with_retry ::
  "(nat \<Rightarrow> 'f exchange) \<Rightarrow> 'f tariff \<Rightarrow> (bool \<times> nat) \<times> effect list" where
  "send_with_retry post tariff = retry_loop post tariff [1..<MAX_RETRIES + 1]"

subsection \<open>\<^verbatim>\<open>_verify_tariff\<close>\<close>

text \<open>\<^verbatim>\<open>obj.get(key, default)\<close>: only a dictionary has the method.\<close>

definition dict_get :: "'f pyval \<Rightarrow> string \<Rightarrow> 'f pyval \<Rightarrow> py_error + 'f pyval" where
  "dict_get obj key dflt =
     (case obj of
        PyDict kvs \<Rightarrow> (case map_of kvs key of None \<Rightarrow> Inr dflt | Some v \<Rightarrow> Inr v)
      | _ \<Rightarrow> Inl AttributeError)"

definition and_then :: "py_error + 'a \<Rightarrow> ('a \<Rightarrow> py_error + 'b) \<Rightarrow> py_error + 'b" where
  "and_then r f = (case r of Inl e \<Rightarrow> Inl e | Inr x \<Rightarrow> f x)"

text \<open>Lines 400 to 406.\<close>

definition stored_rates :: "'f pyval \<Rightarrow> py_error + 'f pyval" where
  "stored_rates data =
     and_then (dict_get data ''response'' (PyDict [])) (\<lambda>r.
     and_then (dict_get r ''tariff_content_v2'' (PyDict [])) (\<lambda>t.
     and_then (dict_get t ''energy_charges'' (PyDict [])) (\<lambda>e.
     and_then (dict_get e ''Summer'' (PyDict [])) (\<lambda>s.
     dict_get s ''rates'' (PyDict [])))))"

text \<open>The truth value of an object, for \<^verbatim>\<open>if not stored\<close>.\<close>

definition truthy :: "'f float_ops \<Rightarrow> 'f pyval \<Rightarrow> bool" where
  "truthy ops v =
     (case v of
        PyNone \<Rightarrow> False
      | PyNum x \<Rightarrow> is_nonzero ops x
      | PyStr s \<Rightarrow> s \<noteq> []
      | PyList l \<Rightarrow> l \<noteq> []
      | PyDict d \<Rightarrow> d \<noteq> [])"

text \<open>
  Lines 419 to 427: the loop over \<^verbatim>\<open>sent.items()\<close>, collecting the keys that mismatch.
  \<^verbatim>\<open>stored.get\<close> needs a dictionary, and the subtraction needs a number.
\<close>

fun compare_rates ::
  "'f float_ops \<Rightarrow> 'f pyval \<Rightarrow> (string \<times> 'f) list \<Rightarrow> string list \<Rightarrow> py_error + string list" where
  "compare_rates ops stored [] mismatches = Inr mismatches"
| "compare_rates ops stored ((key, sent_value) # sent) mismatches =
     (case dict_get stored key PyNone of
        Inl e \<Rightarrow> Inl e
      | Inr stored_value \<Rightarrow>
          (case stored_value of
             PyNone \<Rightarrow> compare_rates ops stored sent (mismatches @ [key])
           | PyNum x \<Rightarrow>
               (case exceeds_tolerance ops x sent_value of
                  Inl e \<Rightarrow> Inl e
                | Inr far \<Rightarrow>
                    if far then compare_rates ops stored sent (mismatches @ [key])
                    else compare_rates ops stored sent mismatches)
           | _ \<Rightarrow> Inl TypeError))"

definition verify_tariff ::
  "'f float_ops \<Rightarrow> 'f exchange \<Rightarrow> 'f tariff \<Rightarrow> (py_error + bool) \<times> effect list" where
  "verify_tariff ops readback sent_tariff =
     (case readback of
        Raised err \<Rightarrow> (Inr False, [Get, Log WARNING Readback_error])
      | Responded response \<Rightarrow>
          if status response \<noteq> 200 then
            (Inr False, [Get, Log WARNING (Readback_http (status response))])
          else
            (case json response of
               Inl err \<Rightarrow> (Inr False, [Get, Log WARNING Readback_error])
             | Inr data \<Rightarrow>
                 (case stored_rates data of
                    Inl e \<Rightarrow> (Inl e, [Get])
                  | Inr stored \<Rightarrow>
                      (let sent = buy_rates sent_tariff in
                       if \<not> truthy ops stored then
                         (Inr False, [Get, Log WARNING Readback_no_rates])
                       else
                         (case compare_rates ops stored sent [] of
                            Inl e \<Rightarrow> (Inl e, [Get])
                          | Inr mismatches \<Rightarrow>
                              if mismatches \<noteq> [] then
                                (Inr False, [Get, Log WARNING (Readback_mismatches mismatches)])
                              else
                                (Inr True, [Get, Log INFO (Readback_passed (length sent))]))))))"

section \<open>The service\<close>

text \<open>
  \<^verbatim>\<open>SERVICE_SCHEMA\<close>: the host checks the call data against it before it runs the handler.
  The types of the model carry the shape of a rate; what is left is \<^verbatim>\<open>vol.Length(min=1)\<close>.
\<close>

definition SERVICE_SCHEMA :: "'f rate list \<Rightarrow> bool" where
  "SERVICE_SCHEMA rates = (1 \<le> length rates)"

definition fire_event ::
  "string \<Rightarrow> string option \<Rightarrow> bool \<Rightarrow> nat \<Rightarrow> error_text option \<Rightarrow> effect" where
  "fire_event site_id plan_name ok attempts err =
     Fire_event \<lparr> success = ok,
                  site_id_masked = take 4 site_id @ ''***'',
                  plan_name_shown = (case plan_name of
                                       None \<Rightarrow> DEFAULT_PLAN_NAME
                                     | Some s \<Rightarrow> if s = [] then DEFAULT_PLAN_NAME else s),
                  attempt_count = attempts,
                  error = err \<rparr>"

text \<open>
  \<^verbatim>\<open>async_handle_push_tou\<close>: \<open>post\<close> gives the exchange of each attempt to publish,
  \<open>readback\<close> the exchange of the read after it. The handler returns nothing; the result
  is what it did, and the exception that leaves it, if one does.
\<close>

definition async_handle_push_tou ::
  "'f float_ops \<Rightarrow> string \<Rightarrow> (nat \<Rightarrow> 'f exchange) \<Rightarrow> 'f exchange
     \<Rightarrow> 'f rate list \<Rightarrow> string option \<Rightarrow> (py_error + unit) \<times> effect list" where
  "async_handle_push_tou ops site_id post readback rates plan_name =
     (let fx0 = [Log INFO (Building (length rates))] in
      case build_tariff ops rates plan_name of
        Inl err \<Rightarrow>
          (Inr (), fx0 @ [Log ERROR (Build_failed err),
                          fire_event site_id plan_name False 0 (Some (Build_error err))])
      | Inr (tariff, warned) \<Rightarrow>
          (let fx1 = fx0 @ map (\<lambda>(l, m). Log l m) warned;
               ((ok, attempts), fx2) = send_with_retry post tariff
           in if ok then
                (case verify_tariff ops readback tariff of
                   (Inl e, fx3) \<Rightarrow> (Inl e, fx1 @ fx2 @ [Sleep 2] @ fx3)
                 | (Inr verified, fx3) \<Rightarrow>
                     (Inr (),
                      fx1 @ fx2 @ [Sleep 2] @ fx3 @
                      (if \<not> verified then [Log WARNING Verification_failed] else []) @
                      [Notification_dismiss,
                       fire_event site_id plan_name True attempts None,
                       Log INFO (Push_complete attempts)]))
              else
                (Inr (),
                 fx1 @ fx2 @
                 [Notification_create attempts,
                  fire_event site_id plan_name False attempts (Some (Failed_after attempts)),
                  Log ERROR (Push_failed attempts)])))"

section \<open>Notions used in the statements\<close>

text \<open>A rate parses when both of its times do.\<close>

definition parses :: "'f rate \<Rightarrow> bool" where
  "parses rate =
     (\<not> isl (parse_time_to_minutes (start rate)) \<and> \<not> isl (parse_time_to_minutes (end' rate)))"

text \<open>
  A rate covers a minute mark when the loop of lines 103 to 106, run for this rate alone,
  writes the mark.
\<close>

definition covers :: "'f rate \<Rightarrow> int \<Rightarrow> bool" where
  "covers rate k =
     (case parse_time_to_minutes (start rate) of
        Inl e \<Rightarrow> False
      | Inr start_min \<Rightarrow>
          (case parse_time_to_minutes (end' rate) of
             Inl e \<Rightarrow> False
           | Inr end_min0 \<Rightarrow>
               stamp start_min (if end_min0 = 0 then 1440 else end_min0) () Map.empty k \<noteq> None))"

definition slot_prices :: "'f float_ops \<Rightarrow> (int \<rightharpoonup> 'f \<times> 'f) \<Rightarrow> nat \<Rightarrow> 'f \<times> 'f" where
  "slot_prices ops minute_prices slot =
     (case minute_prices (int (slot * 30)) of
        Some p \<Rightarrow> p
      | None \<Rightarrow> (zero_price ops, zero_price ops))"

text \<open>
  An instance of the float operations for the concrete runs below: exact rational
  arithmetic, a cent being a hundredth.
\<close>

definition exact_ops :: "rat float_ops" where
  "exact_ops =
     \<lparr> cents_to_dollars = (\<lambda>x. x / 100),
       zero_price = 0,
       is_nonzero = (\<lambda>x. x \<noteq> 0),
       exceeds_tolerance = (\<lambda>a b. Inr (1 / 1000 < \<bar>a - b\<bar>)) \<rparr>"

text \<open>What a run did: the attempts posted, the delays slept, the events fired.\<close>

fun posts_of :: "effect list \<Rightarrow> nat list" where
  "posts_of [] = []"
| "posts_of (Post a # fx) = a # posts_of fx"
| "posts_of (e # fx) = posts_of fx"

fun sleeps_of :: "effect list \<Rightarrow> nat list" where
  "sleeps_of [] = []"
| "sleeps_of (Sleep d # fx) = d # sleeps_of fx"
| "sleeps_of (e # fx) = sleeps_of fx"

fun events_of :: "effect list \<Rightarrow> event_data list" where
  "events_of [] = []"
| "events_of (Fire_event d # fx) = d # events_of fx"
| "events_of (e # fx) = events_of fx"

fun notifications_of :: "effect list \<Rightarrow> effect list" where
  "notifications_of [] = []"
| "notifications_of (Notification_create n # fx) = Notification_create n # notifications_of fx"
| "notifications_of (Notification_dismiss # fx) = Notification_dismiss # notifications_of fx"
| "notifications_of (e # fx) = notifications_of fx"

text \<open>The rates of the end-to-end example: a morning peak, then a day rate.\<close>

definition example_rates :: "rat rate list" where
  "example_rates =
     [\<lparr> start = ''07:00'', end' = ''09:00'', buy = 30, sell = 5 \<rparr>,
      \<lparr> start = ''09:00'', end' = ''17:00'', buy = 20, sell = 5 \<rparr>]"


text \<open>
  The classification table of the retry controller, as the specification gives it, over
  the status that one publish returns.
\<close>

datatype action = Stop_success | Stop_permanent | Retry_transient

definition classify :: "int \<Rightarrow> action" where
  "classify st =
     (if st = 200 then Stop_success
      else if st = 400 \<or> st = 401 \<or> st = 403 then Stop_permanent
      else if st = 429 \<or> st = 500 \<or> st = 502 \<or> st = 503 \<or> st = 504 then Retry_transient
      else if st = 0 then Retry_transient
      else Stop_permanent)"

text \<open>What the publish of one attempt returns, and the status in it.\<close>

definition publish :: "(nat \<Rightarrow> 'f exchange) \<Rightarrow> 'f tariff \<Rightarrow> nat \<Rightarrow> bool \<times> int" where
  "publish post tariff attempt = fst (send_to_teslemetry (post attempt) tariff)"

definition returned_status :: "(nat \<Rightarrow> 'f exchange) \<Rightarrow> 'f tariff \<Rightarrow> nat \<Rightarrow> int" where
  "returned_status post tariff attempt = snd (publish post tariff attempt)"

text \<open>The posts and the sleeps of a run, in their order.\<close>

fun schedule_of :: "effect list \<Rightarrow> effect list" where
  "schedule_of [] = []"
| "schedule_of (Post a # fx) = Post a # schedule_of fx"
| "schedule_of (Sleep d # fx) = Sleep d # schedule_of fx"
| "schedule_of (e # fx) = schedule_of fx"

definition run_summary :: "(bool \<times> nat) \<times> effect list \<Rightarrow> (bool \<times> nat) \<times> effect list" where
  "run_summary r = (fst r, schedule_of (snd r))"

text \<open>
  The ways an exchange can go without a body read to its end: no response at all, or a
  response whose body the code then fails to read (\<^verbatim>\<open>json()\<close> after a status 200,
  \<^verbatim>\<open>text()\<close> after any other).
\<close>

definition no_response :: "'f exchange \<Rightarrow> bool" where
  "no_response x = (case x of Raised e \<Rightarrow> True | Responded r \<Rightarrow> False)"

definition body_read_raises :: "'f exchange \<Rightarrow> bool" where
  "body_read_raises x =
     (case x of
        Raised e \<Rightarrow> False
      | Responded r \<Rightarrow> if status r = 200 then isl (json r) else isl (text_body r))"

definition response_status :: "'f exchange \<Rightarrow> int option" where
  "response_status x = (case x of Raised e \<Rightarrow> None | Responded r \<Rightarrow> Some (status r))"

text \<open>
  Concrete inputs: the document of the rate that lasts all day, at 30 cents to buy and 5 to
  sell; a server that answers a status, with bodies that read; the three answers 500, 500,
  200; a response 200 whose body is not JSON.
\<close>

definition example_tariff :: "rat tariff" where
  "example_tariff =
     \<lparr> version = 1,
       code = ''TOU_WRITER:CUSTOM'',
       tariff_name = DEFAULT_PLAN_NAME,
       utility = ''Custom'',
       currency = ''AUD'',
       buy_rates = map (\<lambda>slot. (period_key slot, 3 / 10)) [0..<48],
       tou_periods = build_tou_periods (map period_key [0..<48]),
       sell_name = DEFAULT_PLAN_NAME @ '' (Sell)'',
       sell_rates = map (\<lambda>slot. (period_key slot, 1 / 20)) [0..<48] \<rparr>"

definition answer :: "int \<Rightarrow> rat exchange" where
  "answer st = Responded \<lparr> status = st, json = Inr (PyDict []), text_body = Inr [] \<rparr>"

definition example_post :: "nat \<Rightarrow> rat exchange" where
  "example_post attempt =
     (if attempt = 1 then answer 500 else if attempt = 2 then answer 500 else answer 200)"

definition unreadable_200 :: "rat exchange" where
  "unreadable_200 = Responded \<lparr> status = 200, json = Inl Other_exception, text_body = Inr [] \<rparr>"

definition all_day_rates :: "rat rate list" where
  "all_day_rates = [\<lparr> start = ''00:00'', end' = ''00:00'', buy = 30, sell = 5 \<rparr>]"

text \<open>A readback that answers 200 with the JSON body \<^verbatim>\<open>{"response": null}\<close>.\<close>

definition null_response_readback :: "rat exchange" where
  "null_response_readback =
     Responded \<lparr> status = 200,
                 json = Inr (PyDict [(''response'', PyNone)]),
                 text_body = Inr [] \<rparr>"

text \<open>
  An integer as a time field can spell it: an optional sign, then decimal digits, one at
  least and no more than the interpreter reads. A time of the form integer, colon,
  integer has the text before its first colon as the hour field and the text after it as
  the minute field.
\<close>

definition negative :: "string \<Rightarrow> bool" where
  "negative s = (case s of [] \<Rightarrow> False | c # cs \<Rightarrow> c = CHR ''-'')"

definition unsigned :: "string \<Rightarrow> string" where
  "unsigned s =
     (case s of
        [] \<Rightarrow> []
      | c # cs \<Rightarrow> if c = CHR ''+'' \<or> c = CHR ''-'' then cs else c # cs)"

definition decimal_value :: "string \<Rightarrow> int" where
  "decimal_value ds = foldl (\<lambda>acc c. 10 * acc + digit_val c) 0 ds"

definition is_integer_literal :: "string \<Rightarrow> bool" where
  "is_integer_literal s =
     (unsigned s \<noteq> [] \<and> list_all is_digit (unsigned s)
      \<and> length (unsigned s) \<le> INT_MAX_STR_DIGITS)"

definition literal_value :: "string \<Rightarrow> int" where
  "literal_value s =
     (if negative s then - decimal_value (unsigned s) else decimal_value (unsigned s))"

definition hour_field :: "string \<Rightarrow> string" where
  "hour_field s = takeWhile (\<lambda>c. c \<noteq> CHR '':'') s"

definition minute_field :: "string \<Rightarrow> string" where
  "minute_field s = tl (dropWhile (\<lambda>c. c \<noteq> CHR '':'') s)"

definition is_integer_time :: "string \<Rightarrow> bool" where
  "is_integer_time s =
     (dropWhile (\<lambda>c. c \<noteq> CHR '':'') s \<noteq> []
      \<and> is_integer_literal (hour_field s) \<and> is_integer_literal (minute_field s))"

text \<open>A rate whose times lie beyond the day: from 25:99 to 48:00.\<close>

definition out_of_range_rates :: "rat rate list" where
  "out_of_range_rates = [\<lparr> start = ''25:99'', end' = ''48:00'', buy = 30, sell = 5 \<rparr>]"

text \<open>
  A sent rate is matched by a stored table when the table has a number under its key and
  the tolerance test says that the two do not differ.
\<close>

definition rate_matches ::
  "'f float_ops \<Rightarrow> (string \<times> 'f pyval) list \<Rightarrow> string \<times> 'f \<Rightarrow> bool" where
  "rate_matches ops kvs entry =
     (case map_of kvs (fst entry) of
        Some (PyNum x) \<Rightarrow> exceeds_tolerance ops x (snd entry) = Inr False
      | _ \<Rightarrow> False)"

section \<open>The expansion of the rates\<close>

lemma stamp_apply:
  "stamp m e v mp k = (if m \<le> k \<and> k < e \<and> (k - m) mod 30 = 0 then Some v else mp k)"
proof (induction m e v mp rule: stamp.induct)
  case (1 m e v mp)
  show ?case
  proof (cases "m < e")
    case False
    then show ?thesis by (subst stamp.simps) auto
  next
    case True
    have step: "stamp m e v mp k = stamp (m + 30) e v (mp(m \<mapsto> v)) k"
      using True by (subst stamp.simps) simp
    have arith: "(m + 30 \<le> k \<and> (k - (m + 30)) mod 30 = 0) \<longleftrightarrow> (m \<le> k \<and> k \<noteq> m \<and> (k - m) mod 30 = 0)"
      by presburger
    show ?thesis
      unfolding step "1.IH"[OF True] using True arith by auto
  qed
qed

lemma covers_iff:
  assumes "parse_time_to_minutes (start r) = Inr s" "parse_time_to_minutes (end' r) = Inr e"
  shows "covers r k \<longleftrightarrow> s \<le> k \<and> k < (if e = 0 then 1440 else e) \<and> (k - s) mod 30 = 0"
  using assms by (simp add: covers_def stamp_apply)

lemma find_app:
  "find P (xs @ ys) = (case find P xs of None \<Rightarrow> find P ys | Some x \<Rightarrow> Some x)"
  by (induction xs) auto

lemma expand_rates_apply:
  assumes "\<forall>r \<in> set rates. parses r"
  shows "\<exists>mp'. expand_rates ops rates mp = Inr mp' \<and>
           (\<forall>k. mp' k = (case find (\<lambda>r. covers r k) (rev rates) of
                            Some r \<Rightarrow> Some (cents_to_dollars ops (buy r), cents_to_dollars ops (sell r))
                          | None \<Rightarrow> mp k))"
  using assms
proof (induction rates arbitrary: mp)
  case Nil
  then show ?case by simp
next
  case (Cons r rates)
  from Cons.prems obtain s e where
    s: "parse_time_to_minutes (start r) = Inr s" and e: "parse_time_to_minutes (end' r) = Inr e"
    by (auto simp: parses_def isl_def) (metis sum.exhaust)
  let ?mp = "stamp s (if e = 0 then 1440 else e) (cents_to_dollars ops (buy r), cents_to_dollars ops (sell r)) mp"
  from Cons.IH[of ?mp] Cons.prems obtain mp' where
    mp': "expand_rates ops rates ?mp = Inr mp'"
      "\<And>k. mp' k = (case find (\<lambda>r. covers r k) (rev rates) of
                            Some r \<Rightarrow> Some (cents_to_dollars ops (buy r), cents_to_dollars ops (sell r))
                          | None \<Rightarrow> ?mp k)"
    by auto
  have "expand_rates ops (r # rates) mp = Inr mp'"
    using s e mp'(1) by (simp add: Let_def)
  moreover have "mp' k = (case find (\<lambda>r. covers r k) (rev (r # rates)) of
                            Some r \<Rightarrow> Some (cents_to_dollars ops (buy r), cents_to_dollars ops (sell r))
                          | None \<Rightarrow> mp k)" for k
  proof (cases "find (\<lambda>r. covers r k) (rev rates)")
    case (Some x)
    then show ?thesis using mp'(2)[of k] by (simp add: find_app)
  next
    case None
    have "?mp k = (if covers r k
                   then Some (cents_to_dollars ops (buy r), cents_to_dollars ops (sell r))
                   else mp k)"
      unfolding covers_iff[OF s e] stamp_apply by simp
    then show ?thesis using mp'(2)[of k] None by (simp add: find_app)
  qed
  ultimately show ?case by blast
qed



lemma update_fresh: "k \<notin> fst ` set al \<Longrightarrow> AList.update k v al = al @ [(k, v)]"
  by (induction al) auto

lemma fold_slot_step:
  assumes "distinct (map period_key xs)"
    and "period_key ` set xs \<inter> fst ` set (buy_prices st) = {}"
    and "period_key ` set xs \<inter> fst ` set (sell_prices st) = {}"
  shows "fold (slot_step ops mp) xs st =
           \<lparr> buy_prices = buy_prices st @ map (\<lambda>i. (period_key i, fst (slot_prices ops mp i))) xs,
             sell_prices = sell_prices st @ map (\<lambda>i. (period_key i, snd (slot_prices ops mp i))) xs,
             period_keys = period_keys st @ map period_key xs,
             warnings = warnings st @ concat (map (\<lambda>i. if mp (int (i * 30)) = None
                                                      then [(WARNING, No_rate_covers (period_key i))] else []) xs) \<rparr>"
  using assms
proof (induction xs arbitrary: st)
  case Nil
  then show ?case by simp
next
  case (Cons x xs)
  have fb: "period_key x \<notin> fst ` set (buy_prices st)" and fs: "period_key x \<notin> fst ` set (sell_prices st)"
    using Cons.prems by auto
  let ?st = "slot_step ops mp x st"
  have st': "?st = \<lparr> buy_prices = buy_prices st @ [(period_key x, fst (slot_prices ops mp x))],
             sell_prices = sell_prices st @ [(period_key x, snd (slot_prices ops mp x))],
             period_keys = period_keys st @ [period_key x],
             warnings = warnings st @ (if mp (int (x * 30)) = None
                                                      then [(WARNING, No_rate_covers (period_key x))] else []) \<rparr>"
    by (simp add: slot_step_def slot_prices_def Let_def update_fresh[OF fb] update_fresh[OF fs] split: option.splits)
  have "fold (slot_step ops mp) (x # xs) st = fold (slot_step ops mp) xs ?st" by simp
  also have "\<dots> = \<lparr> buy_prices = buy_prices ?st @ map (\<lambda>i. (period_key i, fst (slot_prices ops mp i))) xs,
             sell_prices = sell_prices ?st @ map (\<lambda>i. (period_key i, snd (slot_prices ops mp i))) xs,
             period_keys = period_keys ?st @ map period_key xs,
             warnings = warnings ?st @ concat (map (\<lambda>i. if mp (int (i * 30)) = None
                                                      then [(WARNING, No_rate_covers (period_key i))] else []) xs) \<rparr>"
    apply (rule Cons.IH)
    using Cons.prems by (auto simp: st')
  finally show ?case by (simp add: st')
qed

lemma distinct_period_keys: "distinct (map period_key [0..<48])"
  by code_simp

lemma build_slots_eq:
  "build_slots ops mp =
           \<lparr> buy_prices = map (\<lambda>i. (period_key i, fst (slot_prices ops mp i))) [0..<48],
             sell_prices = map (\<lambda>i. (period_key i, snd (slot_prices ops mp i))) [0..<48],
             period_keys = map period_key [0..<48],
             warnings = concat (map (\<lambda>i. if mp (int (i * 30)) = None
                                                      then [(WARNING, No_rate_covers (period_key i))] else []) [0..<48]) \<rparr>"
  unfolding build_slots_def
  by (subst fold_slot_step) (simp_all add: distinct_period_keys)


lemma parse_error_is_ValueError:
  "parse_time_to_minutes s = Inl e \<Longrightarrow> e = ValueError"
  by (auto simp: parse_time_to_minutes_def Let_def split: if_splits option.splits)

lemma expand_rates_fails_iff:
  "isl (expand_rates ops rates mp) \<longleftrightarrow> (\<exists>r \<in> set rates. \<not> parses r)"
proof (induction rates arbitrary: mp)
  case Nil
  then show ?case by simp
next
  case (Cons r rates)
  show ?case
  proof (cases "parse_time_to_minutes (start r)")
    case (Inl e)
    then show ?thesis by (simp add: parses_def)
  next
    case s: (Inr s)
    show ?thesis
    proof (cases "parse_time_to_minutes (end' r)")
      case (Inl e)
      then show ?thesis using s by (simp add: parses_def)
    next
      case e: (Inr e)
      have "parses r" using s e by (simp add: parses_def)
      then show ?thesis using s e Cons.IH by (simp add: Let_def)
    qed
  qed
qed

lemma expand_rates_error:
  "expand_rates ops rates mp = Inl e \<Longrightarrow> e = ValueError"
proof (induction rates arbitrary: mp)
  case Nil
  then show ?case by simp
next
  case (Cons r rates)
  then show ?case
    by (auto simp: Let_def split: sum.splits dest: parse_error_is_ValueError)
qed

lemma build_tariff_tables:
  assumes "expand_rates ops rates Map.empty = Inr mp"
  shows "\<exists>doc. build_tariff ops rates plan_name =
                 Inr (doc, concat (map (\<lambda>i. if mp (int (i * 30)) = None
                                             then [(WARNING, No_rate_covers (period_key i))] else [])
                                       [0..<48]))
              \<and> buy_rates doc = map (\<lambda>i. (period_key i, fst (slot_prices ops mp i))) [0..<48]
              \<and> sell_rates doc = map (\<lambda>i. (period_key i, snd (slot_prices ops mp i))) [0..<48]"
  using assms by (simp add: build_tariff_def Let_def build_slots_eq)

lemma find_SomeD: "find P xs = Some x \<Longrightarrow> x \<in> set xs \<and> P x"
  by (induction xs) (auto split: if_splits)

lemma stamped_None_iff:
  assumes "\<forall>r \<in> set rates. parses r" "expand_rates ops rates Map.empty = Inr mp"
  shows "mp k = None \<longleftrightarrow> (\<forall>r \<in> set rates. \<not> covers r k)"
proof -
  from expand_rates_apply[OF assms(1), of ops Map.empty] assms(2)
  have "mp k = (case find (\<lambda>r. covers r k) (rev rates) of
                  Some r \<Rightarrow> Some (cents_to_dollars ops (buy r), cents_to_dollars ops (sell r))
                | None \<Rightarrow> None)"
    by simp
  then have eq: "mp k = None \<longleftrightarrow> find (\<lambda>r. covers r k) (rev rates) = None"
    by (simp split: option.splits)
  show ?thesis
    unfolding eq by (auto simp: find_None_iff)
qed

lemma slot_in_day:
  fixes minute :: int
  assumes "0 \<le> minute" "minute < 1440"
  shows "\<exists>!slot. slot < 48 \<and> int (slot * 30) \<le> minute \<and> minute < int (slot * 30) + 30"
proof
  show "nat (minute div 30) < 48 \<and> int (nat (minute div 30) * 30) \<le> minute
          \<and> minute < int (nat (minute div 30) * 30) + 30"
    using assms by auto
next
  fix slot :: nat
  assume "slot < 48 \<and> int (slot * 30) \<le> minute \<and> minute < int (slot * 30) + 30"
  then show "slot = nat (minute div 30)" by auto
qed

text \<open>
  C1. For every list of rates whose times all parse (the empty list too), the document is
  built, and its buy table and its sell table each have 48 entries, whose keys are the 48
  slot keys in order, all different; the slots tile the day, each minute of it lying in
  one slot. A slot whose start minute no rate covers has the price \<open>0.0\<close> in both tables
  and a warning is logged for it; nothing but warnings is logged, and the build does not
  fail.
\<close>

theorem build_tariff_48_slots:
  assumes "\<forall>r \<in> set rates. parses r"
  shows "\<exists>doc logged.
           build_tariff ops rates plan_name = Inr (doc, logged)
         \<and> length (buy_rates doc) = 48 \<and> length (sell_rates doc) = 48
         \<and> map fst (buy_rates doc) = map period_key [0..<48]
         \<and> map fst (sell_rates doc) = map period_key [0..<48]
         \<and> distinct (map period_key [0..<48])
         \<and> (\<forall>minute. 0 \<le> minute \<and> minute < 1440 \<longrightarrow>
               (\<exists>!slot. slot < 48 \<and> int (slot * 30) \<le> minute \<and> minute < int (slot * 30) + 30))
         \<and> (\<forall>slot < 48. (\<forall>r \<in> set rates. \<not> covers r (int (slot * 30))) \<longrightarrow>
               buy_rates doc ! slot = (period_key slot, zero_price ops)
             \<and> sell_rates doc ! slot = (period_key slot, zero_price ops)
             \<and> (WARNING, No_rate_covers (period_key slot)) \<in> set logged)
         \<and> (\<forall>entry \<in> set logged. fst entry = WARNING)"
proof -
  from expand_rates_apply[OF assms, of ops Map.empty] obtain mp where
    mp: "expand_rates ops rates Map.empty = Inr mp" by blast
  let ?logged = "concat (map (\<lambda>i. if mp (int (i * 30)) = None
                                   then [(WARNING, No_rate_covers (period_key i))] else [])
                             [0..<48])"
  from build_tariff_tables[OF mp, of plan_name] obtain doc where
    doc: "build_tariff ops rates plan_name = Inr (doc, ?logged)"
    and buy: "buy_rates doc = map (\<lambda>i. (period_key i, fst (slot_prices ops mp i))) [0..<48]"
    and sell: "sell_rates doc = map (\<lambda>i. (period_key i, snd (slot_prices ops mp i))) [0..<48]"
    by blast
  have len: "length (buy_rates doc) = 48" "length (sell_rates doc) = 48"
    by (simp_all add: buy sell)
  have keys: "map fst (buy_rates doc) = map period_key [0..<48]"
    "map fst (sell_rates doc) = map period_key [0..<48]"
    by (simp_all add: buy sell comp_def)
  have uncovered: "buy_rates doc ! slot = (period_key slot, zero_price ops)
             \<and> sell_rates doc ! slot = (period_key slot, zero_price ops)
             \<and> (WARNING, No_rate_covers (period_key slot)) \<in> set ?logged"
    if "slot < 48" "\<forall>r \<in> set rates. \<not> covers r (int (slot * 30))" for slot
  proof -
    have none: "mp (int (slot * 30)) = None"
      using stamped_None_iff[OF assms mp] that(2) by blast
    have "buy_rates doc ! slot = (period_key slot, zero_price ops)"
      unfolding buy using that(1) none by (simp add: slot_prices_def del: upt_Suc)
    moreover have "sell_rates doc ! slot = (period_key slot, zero_price ops)"
      unfolding sell using that(1) none by (simp add: slot_prices_def del: upt_Suc)
    moreover have "(WARNING, No_rate_covers (period_key slot)) \<in> set ?logged"
      unfolding set_concat using that(1) none
      by (intro UN_I[of "(\<lambda>i. if mp (int (i * 30)) = None
                                   then [(WARNING, No_rate_covers (period_key i))] else []) slot"])
         (simp_all del: upt_Suc)
    ultimately show ?thesis by blast
  qed
  have warn: "\<forall>entry \<in> set ?logged. fst entry = WARNING"
    unfolding set_concat by (auto split: if_splits)
  show ?thesis
    using doc len keys distinct_period_keys slot_in_day uncovered warn by blast
qed


theorem build_tariff_48_slots_witness:
  "list_all parses example_rates
   \<and> (\<exists>doc logged.
         build_tariff exact_ops example_rates None = Inr (doc, logged)
       \<and> length (buy_rates doc) = 48 \<and> length (sell_rates doc) = 48
       \<and> buy_rates doc ! 0 = (period_key 0, 0)
       \<and> sell_rates doc ! 0 = (period_key 0, 0)
       \<and> (WARNING, No_rate_covers (period_key 0)) \<in> set logged)"
proof -
  have h: "\<forall>r \<in> set example_rates. parses r"
    by code_simp
  have uncovered: "\<forall>r \<in> set example_rates. \<not> covers r (int (0 * 30))"
    by code_simp
  have z: "zero_price exact_ops = 0"
    by (simp add: exact_ops_def)
  from build_tariff_48_slots[OF h, of exact_ops None] obtain doc logged where
    doc: "build_tariff exact_ops example_rates None = Inr (doc, logged)"
    and len: "length (buy_rates doc) = 48" "length (sell_rates doc) = 48"
    and slots: "\<forall>slot < 48. (\<forall>r \<in> set example_rates. \<not> covers r (int (slot * 30))) \<longrightarrow>
               buy_rates doc ! slot = (period_key slot, zero_price exact_ops)
             \<and> sell_rates doc ! slot = (period_key slot, zero_price exact_ops)
             \<and> (WARNING, No_rate_covers (period_key slot)) \<in> set logged"
    by blast
  from slots uncovered have
    "buy_rates doc ! 0 = (period_key 0, zero_price exact_ops)
     \<and> sell_rates doc ! 0 = (period_key 0, zero_price exact_ops)
     \<and> (WARNING, No_rate_covers (period_key 0)) \<in> set logged"
    by (metis zero_less_numeral)
  then show ?thesis
    using h doc len z by (auto simp: list_all_iff)
qed

lemma parse_midnight: "parse_time_to_minutes ''00:00'' = Inr 0"
  by code_simp

lemma covers_midnight_to_midnight:
  "covers \<lparr> start = ''00:00'', end' = ''00:00'', buy = b, sell = s \<rparr> k
     \<longleftrightarrow> 0 \<le> k \<and> k < 1440 \<and> k mod 30 = 0"
  by (simp add: covers_iff[where s = 0 and e = 0] parse_midnight)

lemma expand_rates_singleton:
  assumes "parse_time_to_minutes (start r) = Inr s" "parse_time_to_minutes (end' r) = Inr e"
  shows "expand_rates ops [r] mp =
           Inr (stamp s (if e = 0 then 1440 else e)
                  (cents_to_dollars ops (buy r), cents_to_dollars ops (sell r)) mp)"
  using assms by (simp add: Let_def)

text \<open>
  C3. A single rate from \<^verbatim>\<open>00:00\<close> to \<^verbatim>\<open>00:00\<close>: the end time parses to minute 0 and is
  taken as minute 1440, so the rate covers exactly the marks 0, 30, ..., 1410, and the
  document is built with the price of the rate in each of the 48 slots of the buy table
  and of the sell table, and with no warning.
\<close>

theorem midnight_to_midnight_covers_day:
  "parse_time_to_minutes ''00:00'' = Inr 0
   \<and> (\<forall>k. covers \<lparr> start = ''00:00'', end' = ''00:00'', buy = b, sell = s \<rparr> k
            = (0 \<le> k \<and> k < 1440 \<and> k mod 30 = 0))
   \<and> (\<exists>doc. build_tariff ops [\<lparr> start = ''00:00'', end' = ''00:00'', buy = b, sell = s \<rparr>]
                plan_name = Inr (doc, [])
           \<and> buy_rates doc = map (\<lambda>slot. (period_key slot, cents_to_dollars ops b)) [0..<48]
           \<and> sell_rates doc = map (\<lambda>slot. (period_key slot, cents_to_dollars ops s)) [0..<48])"
proof -
  let ?r = "\<lparr> start = ''00:00'', end' = ''00:00'', buy = b, sell = s \<rparr>"
  let ?mp = "stamp 0 1440 (cents_to_dollars ops b, cents_to_dollars ops s) Map.empty"
  have mp: "expand_rates ops [?r] Map.empty = Inr ?mp"
    using expand_rates_singleton[of ?r 0 0 ops Map.empty] by (simp add: parse_midnight)
  have at: "?mp (int (i * 30)) = Some (cents_to_dollars ops b, cents_to_dollars ops s)"
    if "i < 48" for i
    using that by (simp add: stamp_apply)
  have prices: "slot_prices ops ?mp i = (cents_to_dollars ops b, cents_to_dollars ops s)"
    if "i < 48" for i
    using at[OF that] by (simp add: slot_prices_def)
  have nowarn: "concat (map (\<lambda>i. if ?mp (int (i * 30)) = None
                                   then [(WARNING, No_rate_covers (period_key i))] else [])
                             [0..<48]) = []"
    using at by (simp del: upt_Suc)
  have buy_eq: "map (\<lambda>i. (period_key i, fst (slot_prices ops ?mp i))) [0..<48]
                  = map (\<lambda>slot. (period_key slot, cents_to_dollars ops b)) [0..<48]"
    by (rule map_cong) (simp_all add: prices del: upt_Suc)
  have sell_eq: "map (\<lambda>i. (period_key i, snd (slot_prices ops ?mp i))) [0..<48]
                  = map (\<lambda>slot. (period_key slot, cents_to_dollars ops s)) [0..<48]"
    by (rule map_cong) (simp_all add: prices del: upt_Suc)
  from build_tariff_tables[OF mp, of plan_name] obtain doc where
    "build_tariff ops [?r] plan_name = Inr (doc, [])"
    "buy_rates doc = map (\<lambda>slot. (period_key slot, cents_to_dollars ops b)) [0..<48]"
    "sell_rates doc = map (\<lambda>slot. (period_key slot, cents_to_dollars ops s)) [0..<48]"
    unfolding nowarn buy_eq sell_eq by blast
  then show ?thesis
    using parse_midnight covers_midnight_to_midnight[of b s] by blast
qed

theorem midnight_to_midnight_covers_day_witness:
  "\<exists>doc. build_tariff exact_ops [\<lparr> start = ''00:00'', end' = ''00:00'', buy = 30, sell = 5 \<rparr>]
            None = Inr (doc, [])
       \<and> buy_rates doc = map (\<lambda>slot. (period_key slot, 3 / 10)) [0..<48]
       \<and> sell_rates doc = map (\<lambda>slot. (period_key slot, 1 / 20)) [0..<48]"
  using midnight_to_midnight_covers_day[of 30 5 exact_ops None]
  by (simp add: exact_ops_def)





text \<open>
  C8, as the code has it. The build fails exactly when some rate has a time that
  \<open>parse_time_to_minutes\<close> refuses, and it fails with \<^verbatim>\<open>ValueError\<close>, so that no document is
  produced. The empty list of rates is not refused by the build: it gives a document. The
  service schema is what demands one rate at least, before the handler is called.
\<close>

theorem build_tariff_fails_iff_unparsed:
  "(isl (build_tariff ops rates plan_name) = (\<not> list_all parses rates))
   \<and> (\<forall>e. build_tariff ops rates plan_name = Inl e \<longrightarrow> e = ValueError)
   \<and> \<not> isl (build_tariff ops [] plan_name)
   \<and> \<not> SERVICE_SCHEMA ([] :: 'f rate list)"
proof -
  have "isl (build_tariff ops rates plan_name) = isl (expand_rates ops rates Map.empty)"
    by (simp add: build_tariff_def Let_def split: sum.splits)
  then have fails: "isl (build_tariff ops rates plan_name) = (\<not> list_all parses rates)"
    by (simp add: expand_rates_fails_iff list_all_iff)
  have err: "e = ValueError" if "build_tariff ops rates plan_name = Inl e" for e
    using that expand_rates_error[of ops rates Map.empty e]
    by (simp add: build_tariff_def Let_def split: sum.splits)
  have empty: "\<not> isl (build_tariff ops [] plan_name)"
    by (simp add: build_tariff_def Let_def)
  show ?thesis
    using fails err empty by (simp add: SERVICE_SCHEMA_def)
qed

theorem build_tariff_fails_iff_unparsed_witness:
  "\<not> list_all parses [\<lparr> start = ''0700'', end' = ''09:00'', buy = 30, sell = 5 \<rparr> :: rat rate]
   \<and> build_tariff exact_ops [\<lparr> start = ''0700'', end' = ''09:00'', buy = 30, sell = 5 \<rparr>] None
       = Inl ValueError"
proof -
  let ?rates = "[\<lparr> start = ''0700'', end' = ''09:00'', buy = 30, sell = 5 \<rparr> :: rat rate]"
  have h: "\<not> list_all parses ?rates"
    by code_simp
  from build_tariff_fails_iff_unparsed[of exact_ops ?rates None] h
  have "isl (build_tariff exact_ops ?rates None)"
    and "\<forall>e. build_tariff exact_ops ?rates None = Inl e \<longrightarrow> e = ValueError"
    by blast+
  then have "build_tariff exact_ops ?rates None = Inl ValueError"
    by (cases "build_tariff exact_ops ?rates None") auto
  then show ?thesis using h by blast
qed

theorem build_tariff_empty_rates_counterexample:
  "\<not> isl (build_tariff exact_ops [] None)"
  by (simp add: build_tariff_def Let_def)

section \<open>The transport and the retry loop\<close>


lemma schedule_of_append: "schedule_of (xs @ ys) = schedule_of xs @ schedule_of ys"
  by (induction xs rule: schedule_of.induct) simp_all

lemma sleeps_of_append: "sleeps_of (xs @ ys) = sleeps_of xs @ sleeps_of ys"
  by (induction xs rule: sleeps_of.induct) simp_all

lemma posts_of_append: "posts_of (xs @ ys) = posts_of xs @ posts_of ys"
  by (induction xs rule: posts_of.induct) simp_all

lemma events_of_append: "events_of (xs @ ys) = events_of xs @ events_of ys"
  by (induction xs rule: events_of.induct) simp_all

lemma notifications_of_append:
  "notifications_of (xs @ ys) = notifications_of xs @ notifications_of ys"
  by (induction xs rule: notifications_of.induct) simp_all

lemma posts_of_schedule: "posts_of (schedule_of fx) = posts_of fx"
  by (induction fx rule: schedule_of.induct) simp_all

lemma sleeps_of_schedule: "sleeps_of (schedule_of fx) = sleeps_of fx"
  by (induction fx rule: schedule_of.induct) simp_all

lemma send_to_teslemetry_cases:
  "fst (send_to_teslemetry x t) =
     (case x of
        Raised e \<Rightarrow> (False, 0)
      | Responded r \<Rightarrow>
          if status r = 200 then (case json r of Inl e \<Rightarrow> (False, 0) | Inr v \<Rightarrow> (True, 200))
          else (case text_body r of Inl e \<Rightarrow> (False, 0) | Inr v \<Rightarrow> (False, status r)))"
  by (simp add: send_to_teslemetry_def Let_def split: exchange.splits sum.splits)

lemma send_to_teslemetry_quiet:
  "schedule_of (snd (send_to_teslemetry x t)) = []"
  "events_of (snd (send_to_teslemetry x t)) = []"
  "notifications_of (snd (send_to_teslemetry x t)) = []"
  by (simp_all add: send_to_teslemetry_def Let_def schedule_of_append events_of_append
        notifications_of_append split: exchange.splits sum.splits)

lemma success_iff_200:
  "fst (publish post t a) = (returned_status post t a = 200)"
  by (simp add: publish_def returned_status_def send_to_teslemetry_cases
        split: exchange.splits sum.splits)

lemma retry_step_summary:
  "run_summary (retry_loop post tariff (a # rest)) =
     (case classify (returned_status post tariff a) of
        Stop_success \<Rightarrow> ((True, a), [Post a])
      | Stop_permanent \<Rightarrow> ((False, a), [Post a])
      | Retry_transient \<Rightarrow>
          if a = MAX_RETRIES then ((False, a), [Post a])
          else (case run_summary (retry_loop post tariff rest) of
                  (res, sched) \<Rightarrow> (res, Post a # Sleep (RETRY_DELAYS ! (a - 1)) # sched)))"
proof -
  obtain ok c sent where r: "send_to_teslemetry (post a) tariff = ((ok, c), sent)"
    by (metis surj_pair)
  have c: "returned_status post tariff a = c" and ok: "ok = (c = 200)"
    using r success_iff_200[of post tariff a]
    by (simp_all add: returned_status_def publish_def)
  have quiet: "schedule_of sent = []"
    using send_to_teslemetry_quiet(1)[of "post a" tariff] r by simp
  show ?thesis
    unfolding c
    by (simp add: r ok quiet run_summary_def classify_def schedule_of_append
          PERMANENT_FAILURE_CODES_def RETRIABLE_STATUS_CODES_def Let_def
          split: prod.splits)
qed

lemma send_with_retry_summary:
  "run_summary (send_with_retry post tariff) =
     (case classify (returned_status post tariff 1) of
        Stop_success \<Rightarrow> ((True, 1), [Post 1])
      | Stop_permanent \<Rightarrow> ((False, 1), [Post 1])
      | Retry_transient \<Rightarrow>
          (case classify (returned_status post tariff 2) of
             Stop_success \<Rightarrow> ((True, 2), [Post 1, Sleep 2, Post 2])
           | Stop_permanent \<Rightarrow> ((False, 2), [Post 1, Sleep 2, Post 2])
           | Retry_transient \<Rightarrow>
               (case classify (returned_status post tariff 3) of
                  Stop_success \<Rightarrow> ((True, 3), [Post 1, Sleep 2, Post 2, Sleep 4, Post 3])
                | Stop_permanent \<Rightarrow> ((False, 3), [Post 1, Sleep 2, Post 2, Sleep 4, Post 3])
                | Retry_transient \<Rightarrow> ((False, 3), [Post 1, Sleep 2, Post 2, Sleep 4, Post 3]))))"
proof -
  have range: "[1..<MAX_RETRIES + 1] = [1, 2, 3]"
    by (simp add: MAX_RETRIES_def upt_conv_Cons)
  show ?thesis
    unfolding send_with_retry_def range
    by (simp add: retry_step_summary MAX_RETRIES_def RETRY_DELAYS_def
          del: retry_loop.simps split: action.splits)
qed


lemma summary_of_run:
  assumes "send_with_retry post tariff = ((ok, n), fx)"
  shows "((ok, n), schedule_of fx) = run_summary (send_with_retry post tariff)"
  using assms by (simp add: run_summary_def)

text \<open>
  C2. For every run of the retry controller, with \<open>n\<close> the attempt count it returns: the
  attempts made are 1 to \<open>n\<close>, at most 3; every attempt before the last returned a status
  that the table calls transient (429, 500, 502, 503, 504 or 0), so these are the ones
  retried; the run succeeds exactly when the last attempt returned 200; and the last
  attempt returned a transient status only when it was the third. So an attempt that
  returns 200 stops the run with success, one that returns 400, 401, 403 or any status
  outside the table stops it as a failure with no further attempt, and a transient one
  is followed by the next attempt while one is left. The status is the one that the
  publish returns.
\<close>

theorem send_with_retry_classification:
  assumes "send_with_retry post tariff = ((ok, n), fx)"
  shows "1 \<le> n \<and> n \<le> 3
       \<and> posts_of fx = [1..<Suc n]
       \<and> (\<forall>a. 1 \<le> a \<and> a < n \<longrightarrow> classify (returned_status post tariff a) = Retry_transient)
       \<and> (ok = (classify (returned_status post tariff n) = Stop_success))
       \<and> (classify (returned_status post tariff n) = Stop_permanent \<longrightarrow> \<not> ok)
       \<and> (classify (returned_status post tariff n) = Retry_transient \<longrightarrow> \<not> ok \<and> n = 3)"
proof -
  note s = summary_of_run[OF assms, unfolded send_with_retry_summary]
  have early: "a = 1 \<or> a = 2" if "1 \<le> a" "a < 3" for a :: nat
    using that by arith
  have posts: "posts_of fx = posts_of (schedule_of fx)"
    by (simp add: posts_of_schedule)
  show ?thesis
  proof (cases "classify (returned_status post tariff 1)")
    case Stop_success
    with s show ?thesis unfolding posts by (auto simp: upt_conv_Cons)
  next
    case Stop_permanent
    with s show ?thesis unfolding posts by (auto simp: upt_conv_Cons)
  next
    case t1: Retry_transient
    have first: "classify (returned_status post tariff a) = Retry_transient"
      if "1 \<le> a" "a < 2" for a
    proof -
      from that have "a = 1" by arith
      with t1 show ?thesis by simp
    qed
    show ?thesis
    proof (cases "classify (returned_status post tariff 2)")
      case Stop_success
      with s t1 first show ?thesis unfolding posts by (auto simp: upt_conv_Cons)
    next
      case Stop_permanent
      with s t1 first show ?thesis unfolding posts by (auto simp: upt_conv_Cons)
    next
      case t2: Retry_transient
      have before: "classify (returned_status post tariff a) = Retry_transient"
        if "1 \<le> a" "a < 3" for a
        using early[OF that] t1 t2 by auto
      show ?thesis
      proof (cases "classify (returned_status post tariff 3)")
        case Stop_success
        with s t1 t2 before show ?thesis unfolding posts by (auto simp: upt_conv_Cons)
      next
        case Stop_permanent
        with s t1 t2 before show ?thesis unfolding posts by (auto simp: upt_conv_Cons)
      next
        case Retry_transient
        with s t1 t2 before show ?thesis unfolding posts by (auto simp: upt_conv_Cons)
      qed
    qed
  qed
qed

lemma example_post_statuses:
  "publish example_post example_tariff 1 = (False, 500)"
  "publish example_post example_tariff 2 = (False, 500)"
  "publish example_post example_tariff 3 = (True, 200)"
  by (simp_all add: publish_def send_to_teslemetry_cases example_post_def answer_def)

theorem send_with_retry_classification_witness:
  "\<exists>fx. send_with_retry example_post example_tariff = ((True, 3), fx)
       \<and> posts_of fx = [1, 2, 3]
       \<and> classify (returned_status example_post example_tariff 1) = Retry_transient
       \<and> classify (returned_status example_post example_tariff 2) = Retry_transient
       \<and> classify (returned_status example_post example_tariff 3) = Stop_success"
proof -
  obtain ok n fx where run: "send_with_retry example_post example_tariff = ((ok, n), fx)"
    by (metis surj_pair)
  note c = send_with_retry_classification[OF run]
  have st: "classify (returned_status example_post example_tariff 1) = Retry_transient"
    "classify (returned_status example_post example_tariff 2) = Retry_transient"
    "classify (returned_status example_post example_tariff 3) = Stop_success"
    unfolding returned_status_def example_post_statuses by (simp_all add: classify_def)
  have "n = 3"
  proof (rule ccontr)
    assume "n \<noteq> 3"
    with c have "n = 1 \<or> n = 2" by arith
    with c st show False by auto
  qed
  with c st have "ok" "posts_of fx = [1, 2, 3]"
    by (auto simp: upt_conv_Cons)
  with run \<open>n = 3\<close> st show ?thesis by auto
qed

text \<open>
  C5. The delays are the entries 2, 4, 8 of \<open>RETRY_DELAYS\<close>, taken at the number of the
  attempt that failed, less one. For every run, with \<open>n\<close> the attempt count it returns, the
  posts and sleeps are the first \<open>2 n - 1\<close> of: post 1, sleep 2, post 2, sleep 4, post 3.
  So a sleep follows each attempt but the last, and none follows the third (the 8 is never
  slept). When the three attempts all return transient statuses, the result is
  \<open>(False, 3)\<close>. When they return 500, 500 and 200, the run succeeds at attempt 3 and the
  sleeps are 2 and 4.
\<close>

theorem backoff_schedule:
  assumes "send_with_retry post tariff = ((ok, n), fx)"
  shows "RETRY_DELAYS = [2, 4, 8]
       \<and> schedule_of fx = take (2 * n - 1) [Post 1, Sleep 2, Post 2, Sleep 4, Post 3]
       \<and> sleeps_of fx = map (\<lambda>a. RETRY_DELAYS ! (a - 1)) [1..<n]
       \<and> (classify (returned_status post tariff 1) = Retry_transient
          \<and> classify (returned_status post tariff 2) = Retry_transient
          \<and> classify (returned_status post tariff 3) = Retry_transient
          \<longrightarrow> (ok, n) = (False, 3) \<and> sleeps_of fx = [2, 4])
       \<and> (publish post tariff 1 = (False, 500)
          \<and> publish post tariff 2 = (False, 500)
          \<and> publish post tariff 3 = (True, 200)
          \<longrightarrow> (ok, n) = (True, 3) \<and> sleeps_of fx = [2, 4])"
proof -
  note s = summary_of_run[OF assms, unfolded send_with_retry_summary]
  have sleeps: "sleeps_of fx = sleeps_of (schedule_of fx)"
    by (simp add: sleeps_of_schedule)
  have c500: "classify 500 = Retry_transient" and c200: "classify 200 = Stop_success"
    by (simp_all add: classify_def)
  have named: "publish post tariff 1 = (False, 500)
          \<and> publish post tariff 2 = (False, 500)
          \<and> publish post tariff 3 = (True, 200)
          \<longrightarrow> classify (returned_status post tariff 1) = Retry_transient
            \<and> classify (returned_status post tariff 2) = Retry_transient
            \<and> classify (returned_status post tariff 3) = Stop_success"
    unfolding returned_status_def by (auto simp: c500 c200)
  show ?thesis
  proof (cases "classify (returned_status post tariff 1)")
    case Stop_success
    with s named show ?thesis unfolding sleeps by (auto simp: RETRY_DELAYS_def upt_conv_Cons)
  next
    case Stop_permanent
    with s named show ?thesis unfolding sleeps by (auto simp: RETRY_DELAYS_def upt_conv_Cons)
  next
    case t1: Retry_transient
    show ?thesis
    proof (cases "classify (returned_status post tariff 2)")
      case Stop_success
      with s t1 named show ?thesis
        unfolding sleeps by (auto simp: RETRY_DELAYS_def upt_conv_Cons)
    next
      case Stop_permanent
      with s t1 named show ?thesis
        unfolding sleeps by (auto simp: RETRY_DELAYS_def upt_conv_Cons)
    next
      case t2: Retry_transient
      show ?thesis
      proof (cases "classify (returned_status post tariff 3)")
        case Stop_success
        with s t1 t2 named show ?thesis
          unfolding sleeps by (auto simp: RETRY_DELAYS_def upt_conv_Cons)
      next
        case Stop_permanent
        with s t1 t2 named show ?thesis
          unfolding sleeps by (auto simp: RETRY_DELAYS_def upt_conv_Cons)
      next
        case Retry_transient
        with s t1 t2 named show ?thesis
          unfolding sleeps by (auto simp: RETRY_DELAYS_def upt_conv_Cons)
      qed
    qed
  qed
qed

theorem backoff_schedule_witness:
  "publish example_post example_tariff 1 = (False, 500)
   \<and> publish example_post example_tariff 2 = (False, 500)
   \<and> publish example_post example_tariff 3 = (True, 200)
   \<and> (\<exists>fx. send_with_retry example_post example_tariff = ((True, 3), fx)
          \<and> schedule_of fx = [Post 1, Sleep 2, Post 2, Sleep 4, Post 3]
          \<and> sleeps_of fx = [2, 4])"
proof -
  obtain ok n fx where run: "send_with_retry example_post example_tariff = ((ok, n), fx)"
    by (metis surj_pair)
  note b = backoff_schedule[OF run]
  from b example_post_statuses have res: "(ok, n) = (True, 3)" and sl: "sleeps_of fx = [2, 4]"
    by blast+
  from b res have "schedule_of fx = [Post 1, Sleep 2, Post 2, Sleep 4, Post 3]"
    by simp
  with run res sl example_post_statuses show ?thesis by auto
qed

text \<open>
  C7, as the code has it. The publish returns \<open>(False, 0)\<close> whenever the exchange raises,
  be the exception a client error or any other: when no response arrives, and also when
  a response has arrived and reading its body raises. So the status 0 is returned exactly
  when no response was received, or the body of a received response could not be read,
  or the response itself carried the status 0; it does not mean that no response was
  received.
\<close>

theorem publish_status_zero:
  "(\<forall>e. fst (send_to_teslemetry (Raised e) tariff) = (False, 0))
   \<and> (body_read_raises x \<longrightarrow> fst (send_to_teslemetry x tariff) = (False, 0))
   \<and> (snd (fst (send_to_teslemetry x tariff)) = 0
        \<longleftrightarrow> no_response x \<or> body_read_raises x \<or> response_status x = Some 0)"
  by (auto simp: send_to_teslemetry_cases no_response_def body_read_raises_def
        response_status_def split: exchange.splits sum.splits)

theorem publish_status_zero_witness:
  "body_read_raises unreadable_200
   \<and> fst (send_to_teslemetry unreadable_200 example_tariff) = (False, 0)"
proof -
  have h: "body_read_raises unreadable_200"
    by (simp add: body_read_raises_def unreadable_200_def)
  with publish_status_zero[of example_tariff unreadable_200] show ?thesis
    by blast
qed

theorem status_zero_with_response_counterexample:
  "snd (fst (send_to_teslemetry unreadable_200 example_tariff)) = 0
   \<and> \<not> no_response unreadable_200
   \<and> response_status unreadable_200 = Some 200"
  by (simp add: send_to_teslemetry_cases no_response_def response_status_def
        unreadable_200_def)

lemma retry_loop_quiet:
  "events_of (snd (retry_loop post tariff attempts)) = []
   \<and> notifications_of (snd (retry_loop post tariff attempts)) = []"
proof (induction attempts)
  case Nil
  show ?case by simp
next
  case (Cons a rest)
  obtain ok c sent where r: "send_to_teslemetry (post a) tariff = ((ok, c), sent)"
    by (metis surj_pair)
  obtain res later where rl: "retry_loop post tariff rest = (res, later)"
    by (metis surj_pair)
  have q: "events_of sent = []" "notifications_of sent = []"
    using send_to_teslemetry_quiet(2,3)[of "post a" tariff] r by simp_all
  have ql: "events_of later = []" "notifications_of later = []"
    using Cons.IH rl by simp_all
  show ?case
    by (simp add: r rl q ql Let_def events_of_append notifications_of_append)
qed

lemma verify_tariff_quiet:
  "events_of (snd (verify_tariff ops readback t)) = []"
  "notifications_of (snd (verify_tariff ops readback t)) = []"
  by (simp_all add: verify_tariff_def Let_def split: exchange.splits sum.splits)

lemma logs_quiet:
  "events_of (map (\<lambda>(l, m). Log l m) logged) = []"
  "notifications_of (map (\<lambda>(l, m). Log l m) logged) = []"
  by (induction logged) auto

text \<open>
  What holds of the handler when the verification returns a truth value. Let the document
  be built and let the retry controller report success at attempt \<open>n\<close>. If the readback
  verification returns, true or false, the handler ends without an exception, fires
  exactly one event, which reports success with the attempt count \<open>n\<close> and no error, and
  its only notification act is to dismiss the failure notice. A verification that returns
  false adds a warning to the log and changes nothing else. The hypothesis that the
  verification returns cannot be dropped: see the run that follows the lemmas on the
  comparison.
\<close>

lemma verification_is_advisory:
  assumes "build_tariff ops rates plan_name = Inr (tariff, warned)"
    and "fst (send_with_retry post tariff) = (True, n)"
    and "fst (verify_tariff ops readback tariff) = Inr verified"
  shows "\<exists>fx. async_handle_push_tou ops site_id post readback rates plan_name = (Inr (), fx)
            \<and> events_of fx
                = [\<lparr> success = True,
                     site_id_masked = take 4 site_id @ ''***'',
                     plan_name_shown = (case plan_name of
                                          None \<Rightarrow> DEFAULT_PLAN_NAME
                                        | Some s \<Rightarrow> if s = [] then DEFAULT_PLAN_NAME else s),
                     attempt_count = n,
                     error = None \<rparr>]
            \<and> notifications_of fx = [Notification_dismiss]
            \<and> (\<not> verified \<longrightarrow> Log WARNING Verification_failed \<in> set fx)"
proof -
  obtain fx2 where send: "send_with_retry post tariff = ((True, n), fx2)"
    using assms(2) by (cases "send_with_retry post tariff") auto
  obtain fx3 where verify: "verify_tariff ops readback tariff = (Inr verified, fx3)"
    using assms(3) by (cases "verify_tariff ops readback tariff") auto
  have q2: "events_of fx2 = []" "notifications_of fx2 = []"
    using retry_loop_quiet[of post tariff "[1..<MAX_RETRIES + 1]"] send
    by (simp_all add: send_with_retry_def)
  have q3: "events_of fx3 = []" "notifications_of fx3 = []"
    using verify_tariff_quiet[of ops readback tariff] verify by simp_all
  let ?fx = "[Log INFO (Building (length rates))] @ map (\<lambda>(l, m). Log l m) warned @ fx2
             @ [Sleep 2] @ fx3
             @ (if \<not> verified then [Log WARNING Verification_failed] else [])
             @ [Notification_dismiss,
                fire_event site_id plan_name True n None,
                Log INFO (Push_complete n)]"
  have run: "async_handle_push_tou ops site_id post readback rates plan_name = (Inr (), ?fx)"
    by (simp add: async_handle_push_tou_def assms(1) send verify Let_def)
  have ev: "events_of ?fx = events_of [fire_event site_id plan_name True n None]"
    by (simp add: events_of_append q2 q3 logs_quiet fire_event_def)
  have nt: "notifications_of ?fx = [Notification_dismiss]"
    by (simp add: notifications_of_append q2 q3 logs_quiet fire_event_def)
  have warn: "\<not> verified \<longrightarrow> Log WARNING Verification_failed \<in> set ?fx"
    by simp
  from run ev nt warn show ?thesis
    by (simp add: fire_event_def)
qed

lemma example_tariff_built:
  "build_tariff exact_ops all_day_rates None = Inr (example_tariff, [])"
proof -
  let ?mp = "stamp 0 1440 (3 / 10 :: rat, 1 / 20 :: rat) Map.empty"
  have mp: "expand_rates exact_ops all_day_rates Map.empty = Inr ?mp"
    unfolding all_day_rates_def
    by (subst expand_rates_singleton[where s = 0 and e = 0])
       (simp_all add: parse_midnight exact_ops_def)
  have at: "?mp (int (i * 30)) = Some (3 / 10, 1 / 20)" if "i < 48" for i
    using that by (simp add: stamp_apply)
  have prices: "slot_prices exact_ops ?mp i = (3 / 10, 1 / 20)" if "i < 48" for i
    using at[OF that] by (simp add: slot_prices_def)
  have nowarn: "concat (map (\<lambda>i. if ?mp (int (i * 30)) = None
                                   then [(WARNING, No_rate_covers (period_key i))] else [])
                             [0..<48]) = []"
    using at by (simp del: upt_Suc)
  have buy_eq: "map (\<lambda>i. (period_key i, fst (slot_prices exact_ops ?mp i))) [0..<48]
                  = map (\<lambda>slot. (period_key slot, 3 / 10)) [0..<48]"
    by (rule map_cong) (simp_all add: prices del: upt_Suc)
  have sell_eq: "map (\<lambda>i. (period_key i, snd (slot_prices exact_ops ?mp i))) [0..<48]
                  = map (\<lambda>slot. (period_key slot, 1 / 20)) [0..<48]"
    by (rule map_cong) (simp_all add: prices del: upt_Suc)
  have slots: "build_slots exact_ops ?mp =
                 \<lparr> buy_prices = map (\<lambda>slot. (period_key slot, 3 / 10)) [0..<48],
                   sell_prices = map (\<lambda>slot. (period_key slot, 1 / 20)) [0..<48],
                   period_keys = map period_key [0..<48],
                   warnings = [] \<rparr>"
    by (simp only: build_slots_eq nowarn buy_eq sell_eq)
  show ?thesis
    by (simp add: build_tariff_def mp slots example_tariff_def Let_def del: upt_Suc)
qed

lemma example_post_succeeds:
  "fst (send_with_retry example_post example_tariff) = (True, 3)"
proof -
  have st: "classify (returned_status example_post example_tariff 1) = Retry_transient"
    "classify (returned_status example_post example_tariff 2) = Retry_transient"
    "classify (returned_status example_post example_tariff 3) = Stop_success"
    unfolding returned_status_def example_post_statuses by (simp_all add: classify_def)
  have "run_summary (send_with_retry example_post example_tariff)
          = ((True, 3), [Post 1, Sleep 2, Post 2, Sleep 4, Post 3])"
    unfolding send_with_retry_summary st by simp
  then show ?thesis by (simp add: run_summary_def)
qed

lemma readback_500_fails:
  "fst (verify_tariff exact_ops (answer 500) example_tariff) = Inr False"
  by (simp add: verify_tariff_def answer_def)

lemma verification_is_advisory_at_failed_readback:
  "build_tariff exact_ops all_day_rates None = Inr (example_tariff, [])
   \<and> fst (send_with_retry example_post example_tariff) = (True, 3)
   \<and> fst (verify_tariff exact_ops (answer 500) example_tariff) = Inr False
   \<and> (\<exists>fx. async_handle_push_tou exact_ops ''1234567'' example_post (answer 500)
              all_day_rates None = (Inr (), fx)
          \<and> events_of fx
              = [\<lparr> success = True, site_id_masked = ''1234***'',
                   plan_name_shown = DEFAULT_PLAN_NAME, attempt_count = 3, error = None \<rparr>]
          \<and> notifications_of fx = [Notification_dismiss]
          \<and> Log WARNING Verification_failed \<in> set fx)"
  using verification_is_advisory[OF example_tariff_built example_post_succeeds
      readback_500_fails, of "''1234567''"]
    example_tariff_built example_post_succeeds readback_500_fails
  by simp

lemma compare_rates_clean:
  "compare_rates ops (PyDict kvs) sent acc = Inr []
     \<longleftrightarrow> acc = [] \<and> list_all (rate_matches ops kvs) sent"
proof (induction sent arbitrary: acc)
  case Nil
  show ?case by auto
next
  case (Cons entry sent)
  obtain k v where entry: "entry = (k, v)" by (cases entry)
  show ?case
    unfolding entry
    by (simp add: Cons.IH dict_get_def rate_matches_def
          split: option.splits pyval.splits sum.splits)
qed

text \<open>
  What holds of the comparison, for a readback that answers 200 with a body in which the
  stored table is a dictionary: the verification returns true exactly when the table is
  not empty and every sent rate is matched in it. It returns false, without an exception,
  when the exchange raises, when the status is not 200 and when the body is not JSON.
\<close>

lemma verify_tariff_true_iff:
  assumes "readback = Responded r" "status r = 200" "json r = Inr data"
    and "stored_rates data = Inr (PyDict kvs)"
  shows "fst (verify_tariff ops readback sent_tariff) = Inr True
           \<longleftrightarrow> kvs \<noteq> [] \<and> list_all (rate_matches ops kvs) (buy_rates sent_tariff)"
proof (cases "compare_rates ops (PyDict kvs) (buy_rates sent_tariff) []")
  case (Inl e)
  with compare_rates_clean[of ops kvs "buy_rates sent_tariff" "[]"] assms show ?thesis
    by (simp add: verify_tariff_def truthy_def Let_def)
next
  case (Inr ms)
  with compare_rates_clean[of ops kvs "buy_rates sent_tariff" "[]"] assms show ?thesis
    by (simp add: verify_tariff_def truthy_def Let_def)
qed

lemma verify_tariff_false_on_fault:
  "fst (verify_tariff ops (Raised e) sent_tariff) = Inr False"
  "status r \<noteq> 200 \<Longrightarrow> fst (verify_tariff ops (Responded r) sent_tariff) = Inr False"
  "status r = 200 \<Longrightarrow> json r = Inl e \<Longrightarrow>
     fst (verify_tariff ops (Responded r) sent_tariff) = Inr False"
  by (simp_all add: verify_tariff_def)

text \<open>
  C4 at the readback that answers 200 with the body \<^verbatim>\<open>{"response": null}\<close>: the lookup
  \<^verbatim>\<open>.get("tariff_content_v2", {})\<close> is made on \<^verbatim>\<open>None\<close>, outside the \<^verbatim>\<open>try\<close>, and the
  verification raises \<^verbatim>\<open>AttributeError\<close> instead of returning false. The exception then
  leaves the handler, after the push has succeeded and before any event is fired.
\<close>

theorem verify_tariff_raises_on_null_response:
  "fst (verify_tariff exact_ops null_response_readback example_tariff) = Inl AttributeError
   \<and> fst (async_handle_push_tou exact_ops ''1234567'' example_post null_response_readback
            all_day_rates None) = Inl AttributeError"
proof -
  have v: "verify_tariff exact_ops null_response_readback example_tariff
             = (Inl AttributeError, [Get])"
    by (simp add: verify_tariff_def null_response_readback_def stored_rates_def
          dict_get_def and_then_def)
  obtain fx2 where send: "send_with_retry example_post example_tariff = ((True, 3), fx2)"
    using example_post_succeeds by (cases "send_with_retry example_post example_tariff") auto
  show ?thesis
    by (simp add: v async_handle_push_tou_def example_tariff_built send Let_def)
qed

text \<open>
  C9 at the same readback, \<^verbatim>\<open>{"response": null}\<close> with status 200. The document is built
  and the retry controller reports success at attempt 3, yet the outcome is not success:
  the verification raises, nothing around its call catches the exception, and the handler
  ends with \<^verbatim>\<open>AttributeError\<close> having fired no event and neither dismissed nor created a
  notification. The verification is advisory only when it returns.
\<close>

theorem handler_raises_after_successful_push:
  "build_tariff exact_ops all_day_rates None = Inr (example_tariff, [])
   \<and> fst (send_with_retry example_post example_tariff) = (True, 3)
   \<and> (\<exists>fx. async_handle_push_tou exact_ops ''1234567'' example_post null_response_readback
              all_day_rates None = (Inl AttributeError, fx)
          \<and> events_of fx = []
          \<and> notifications_of fx = [])"
proof -
  have v: "verify_tariff exact_ops null_response_readback example_tariff
             = (Inl AttributeError, [Get])"
    by (simp add: verify_tariff_def null_response_readback_def stored_rates_def
          dict_get_def and_then_def)
  obtain fx2 where send: "send_with_retry example_post example_tariff = ((True, 3), fx2)"
    using example_post_succeeds by (cases "send_with_retry example_post example_tariff") auto
  have q2: "events_of fx2 = []" "notifications_of fx2 = []"
    using retry_loop_quiet[of example_post example_tariff "[1..<MAX_RETRIES + 1]"] send
    by (simp_all add: send_with_retry_def)
  let ?fx = "[Log INFO (Building (length all_day_rates))] @ fx2 @ [Sleep 2] @ [Get]"
  have run: "async_handle_push_tou exact_ops ''1234567'' example_post null_response_readback
               all_day_rates None = (Inl AttributeError, ?fx)"
    by (simp add: v async_handle_push_tou_def example_tariff_built send Let_def)
  have "events_of ?fx = []" "notifications_of ?fx = []"
    by (simp_all add: events_of_append notifications_of_append q2)
  with run example_tariff_built example_post_succeeds show ?thesis
    by blast
qed

section \<open>Times beyond the day\<close>

lemma digit_plain:
  assumes "is_digit c"
  shows "c \<noteq> CHR ''+''" "c \<noteq> CHR ''-''" "c \<noteq> CHR '':''" "\<not> int_isspace c" "\<not> str_isspace c"
  using assms by (auto simp: is_digit_def int_isspace_def str_isspace_def)

lemma sign_plain:
  "\<not> int_isspace CHR ''+''" "\<not> int_isspace CHR ''-''"
  "\<not> str_isspace CHR ''+''" "\<not> str_isspace CHR ''-''"
  by (simp_all add: int_isspace_def str_isspace_def)

lemma strip_ends:
  assumes "s \<noteq> []" "\<not> P (hd s)" "\<not> P (last s)"
  shows "rev (dropWhile P (rev (dropWhile P s))) = s"
proof -
  have "dropWhile P s = s"
    using assms(1,2) by (simp add: dropWhile_eq_self_iff)
  moreover have "dropWhile P (rev s) = rev s"
    using assms(1,3) by (simp add: dropWhile_eq_self_iff hd_rev)
  ultimately show ?thesis by simp
qed

lemma split_no_sep: "sep \<notin> set s \<Longrightarrow> split sep s = [s]"
  by (induction s) auto

lemma split_at_sep:
  "sep \<notin> set a \<Longrightarrow> split sep (a @ sep # b) = a # split sep b"
  by (induction a) auto

lemma scan_all_digits:
  "list_all is_digit ds \<Longrightarrow>
     scan_digits ds acc n = Some (foldl (\<lambda>acc c. 10 * acc + digit_val c) acc ds, n + length ds)"
  by (induction ds arbitrary: acc n) auto

lemma split_sign_literal:
  assumes "is_integer_literal s"
  shows "split_sign s = (negative s, unsigned s)"
proof (cases s)
  case Nil
  then show ?thesis by (simp add: split_sign_def negative_def unsigned_def)
next
  case (Cons c cs)
  then show ?thesis
    by (auto simp: split_sign_def negative_def unsigned_def)
qed

lemma literal_chars:
  assumes "is_integer_literal s"
  shows "s \<noteq> []"
    and "\<not> int_isspace (hd s)" and "\<not> int_isspace (last s)"
    and "\<not> str_isspace (hd s)" and "\<not> str_isspace (last s)"
    and "CHR '':'' \<notin> set s"
proof -
  from assms have u: "unsigned s \<noteq> []" and d: "list_all is_digit (unsigned s)"
    by (simp_all add: is_integer_literal_def)
  from u show ne: "s \<noteq> []" by (auto simp: unsigned_def)
  then obtain c cs where s: "s = c # cs" by (cases s) auto
  have digits: "\<forall>x \<in> set (unsigned s). is_digit x"
    using d by (simp add: list_all_iff)
  have shape: "(unsigned s = cs \<and> (c = CHR ''+'' \<or> c = CHR ''-'')) \<or> (unsigned s = s \<and> is_digit c)"
    using s digits by (auto simp: unsigned_def)
  have last_digit: "is_digit (last s)"
  proof -
    have "last s = last (unsigned s)"
      using shape u s by auto
    moreover have "last (unsigned s) \<in> set (unsigned s)"
      using u by simp
    ultimately show ?thesis using digits by simp
  qed
  have hd_ok: "is_digit (hd s) \<or> hd s = CHR ''+'' \<or> hd s = CHR ''-''"
    using shape s by auto
  show "\<not> int_isspace (hd s)" using hd_ok digit_plain sign_plain by auto
  show "\<not> str_isspace (hd s)" using hd_ok digit_plain sign_plain by auto
  show "\<not> int_isspace (last s)" using last_digit digit_plain by auto
  show "\<not> str_isspace (last s)" using last_digit digit_plain by auto
  show "CHR '':'' \<notin> set s"
  proof
    assume "CHR '':'' \<in> set s"
    with shape s have "CHR '':'' \<in> set (unsigned s)" by auto
    with digits digit_plain(3) show False by blast
  qed
qed

lemma py_int_literal:
  assumes "is_integer_literal s"
  shows "py_int s = Some (literal_value s)"
proof -
  note ch = literal_chars[OF assms]
  have t: "rev (dropWhile int_isspace (rev (dropWhile int_isspace s))) = s"
    by (rule strip_ends[OF ch(1) ch(2) ch(3)])
  from assms have u: "unsigned s \<noteq> []" and d: "list_all is_digit (unsigned s)"
    and len: "length (unsigned s) \<le> INT_MAX_STR_DIGITS"
    by (simp_all add: is_integer_literal_def)
  obtain c cs where body: "unsigned s = c # cs" using u by (cases "unsigned s") auto
  have c: "is_digit c" using d body by simp
  have scan: "scan_digits (c # cs) 0 0 = Some (decimal_value (c # cs), length (c # cs))"
    using scan_all_digits[OF d, of 0 0] body by (simp add: decimal_value_def)
  show ?thesis
    using c scan len
    by (simp add: py_int_def Let_def t split_sign_literal[OF assms] body literal_value_def
          del: scan_digits.simps)
qed

lemma parse_integer_time:
  assumes "is_integer_time s"
  shows "parse_time_to_minutes s
           = Inr (literal_value (hour_field s) * 60 + literal_value (minute_field s))"
proof -
  let ?a = "hour_field s" and ?b = "minute_field s"
  from assms have rest: "dropWhile (\<lambda>c. c \<noteq> CHR '':'') s \<noteq> []"
    and a: "is_integer_literal ?a" and b: "is_integer_literal ?b"
    by (simp_all add: is_integer_time_def)
  have "hd (dropWhile (\<lambda>c. c \<noteq> CHR '':'') s) = CHR '':''"
    using rest hd_dropWhile[of "\<lambda>c. c \<noteq> CHR '':''" s] by auto
  then have rest_eq: "dropWhile (\<lambda>c. c \<noteq> CHR '':'') s = CHR '':'' # ?b"
    using rest by (cases "dropWhile (\<lambda>c. c \<noteq> CHR '':'') s") (auto simp: minute_field_def)
  have s: "s = ?a @ CHR '':'' # ?b"
    using takeWhile_dropWhile_id[of "\<lambda>c. c \<noteq> CHR '':''" s] rest_eq
    by (simp add: hour_field_def)
  note cha = literal_chars[OF a] and chb = literal_chars[OF b]
  have hd_s: "hd s = hd ?a" using s cha(1) by (metis hd_append2)
  have last_s: "last s = last ?b" using s chb(1) by (metis last_appendR last_ConsR list.distinct(1))
  have ne: "s \<noteq> []" using s by auto
  have strip_s: "strip s = s"
    unfolding strip_def using strip_ends[OF ne, of str_isspace] hd_s last_s cha(4) chb(5) by simp
  have parts: "split CHR '':'' s = [?a, ?b]"
    by (subst s) (simp add: split_at_sep[OF cha(6)] split_no_sep[OF chb(6)])
  show ?thesis
    by (simp add: parse_time_to_minutes_def strip_s parts py_int_literal[OF a]
          py_int_literal[OF b] Let_def)
qed

lemma build_slots_day_only:
  assumes "\<forall>k. 0 \<le> k \<and> k < 1440 \<longrightarrow> mp k = mp' k"
  shows "build_slots ops mp = build_slots ops mp'"
proof -
  have same: "mp (int i * 30) = mp' (int i * 30)" if "i < 48" for i
    using assms that by simp
  have "map (\<lambda>i. (period_key i, fst (slot_prices ops mp i))) [0..<48]
          = map (\<lambda>i. (period_key i, fst (slot_prices ops mp' i))) [0..<48]"
    by (rule map_cong) (simp_all add: slot_prices_def same del: upt_Suc)
  moreover have "map (\<lambda>i. (period_key i, snd (slot_prices ops mp i))) [0..<48]
          = map (\<lambda>i. (period_key i, snd (slot_prices ops mp' i))) [0..<48]"
    by (rule map_cong) (simp_all add: slot_prices_def same del: upt_Suc)
  moreover have "map (\<lambda>i. if mp (int (i * 30)) = None
                         then [(WARNING, No_rate_covers (period_key i))] else []) [0..<48]
          = map (\<lambda>i. if mp' (int (i * 30)) = None
                         then [(WARNING, No_rate_covers (period_key i))] else []) [0..<48]"
    by (rule map_cong) (simp_all add: same del: upt_Suc)
  ultimately show ?thesis
    by (simp only: build_slots_eq)
qed


text \<open>
  C10. A time made of an integer, a colon and an integer parses, whatever the two values
  are, to sixty times the first plus the second: no range is checked. An integer is an
  optional sign and then one to 4300 decimal digits. A list of rates whose times all have
  this form is built without error. The slots read the stamped marks only from minute 0 up
  to, and not including, minute 1440: two tables of marks that agree there give the same
  48 slots, so a mark stamped at or beyond 1440 (or below 0) is never read.
\<close>

theorem out_of_range_times_accepted:
  "(is_integer_time s \<longrightarrow>
      parse_time_to_minutes s
        = Inr (literal_value (hour_field s) * 60 + literal_value (minute_field s)))
   \<and> (list_all (\<lambda>r. is_integer_time (start r) \<and> is_integer_time (end' r)) rates \<longrightarrow>
        \<not> isl (build_tariff ops rates plan_name))
   \<and> ((\<forall>k. 0 \<le> k \<and> k < 1440 \<longrightarrow> mp k = mp' k) \<longrightarrow>
        build_slots ops mp = build_slots ops mp')
   \<and> (\<forall>slot < 48. 0 \<le> int (slot * 30) \<and> int (slot * 30) < 1440)"
proof -
  have accepted: "\<not> isl (build_tariff ops rates plan_name)"
    if "list_all (\<lambda>r. is_integer_time (start r) \<and> is_integer_time (end' r)) rates"
  proof -
    have "parses r" if "r \<in> set rates" for r
    proof -
      from \<open>list_all _ rates\<close> that
      have "is_integer_time (start r)" "is_integer_time (end' r)"
        by (simp_all add: list_all_iff)
      then show ?thesis
        by (simp add: parses_def parse_integer_time)
    qed
    then have "\<not> isl (expand_rates ops rates Map.empty)"
      by (simp add: expand_rates_fails_iff)
    then show ?thesis
      by (cases "expand_rates ops rates Map.empty") (simp_all add: build_tariff_def Let_def)
  qed
  show ?thesis
    using parse_integer_time accepted build_slots_day_only[of mp mp' ops]
    by auto
qed

theorem out_of_range_times_accepted_witness:
  "is_integer_time ''25:99''
   \<and> parse_time_to_minutes ''25:99'' = Inr 1599
   \<and> list_all (\<lambda>r. is_integer_time (start r) \<and> is_integer_time (end' r)) out_of_range_rates
   \<and> \<not> isl (build_tariff exact_ops out_of_range_rates None)
   \<and> build_slots exact_ops (stamp 1599 2880 (3 / 10, 1 / 20) Map.empty)
       = build_slots exact_ops Map.empty"
proof -
  have t: "is_integer_time ''25:99''"
    by code_simp
  have v: "literal_value (hour_field ''25:99'') * 60 + literal_value (minute_field ''25:99'')
             = 1599"
    by code_simp
  have r: "list_all (\<lambda>r. is_integer_time (start r) \<and> is_integer_time (end' r))
             out_of_range_rates"
    by code_simp
  have beyond: "\<forall>k. 0 \<le> k \<and> k < 1440 \<longrightarrow>
                  stamp 1599 2880 (3 / 10 :: rat, 1 / 20 :: rat) Map.empty k = Map.empty k"
    by (simp add: stamp_apply)
  note c = out_of_range_times_accepted[of "''25:99''" out_of_range_rates exact_ops None
      "stamp 1599 2880 (3 / 10, 1 / 20) Map.empty" Map.empty]
  from c t v have "parse_time_to_minutes ''25:99'' = Inr 1599"
    by simp
  moreover from c r have "\<not> isl (build_tariff exact_ops out_of_range_rates None)"
    by blast
  moreover from c beyond
  have "build_slots exact_ops (stamp 1599 2880 (3 / 10, 1 / 20) Map.empty)
          = build_slots exact_ops Map.empty"
    by blast
  ultimately show ?thesis using t r by blast
qed

end
